theory Spec2Isabelle
  imports Complex_Main "HOL-Library.Word" "HOL-Library.AList"
begin

section \<open>Strings and the library functions the package calls\<close>

text \<open>
  A Go string is a sequence of bytes: \<^typ>\<open>string\<close>. The functions of this section
  are the ones of Go's standard library that \<^verbatim>\<open>cmdline.go\<close> calls (\<^verbatim>\<open>strings.HasPrefix\<close>,
  \<^verbatim>\<open>strings.Replace\<close>, \<^verbatim>\<open>strings.Join\<close>, \<^verbatim>\<open>strings.Fields\<close>, \<^verbatim>\<open>strconv.ParseInt\<close>,
  \<^verbatim>\<open>strconv.ParseFloat\<close>, \<^verbatim>\<open>fmt.Println\<close>, \<^verbatim>\<open>fmt.Sprint\<close>), written after their documented
  behaviour.
\<close>

definition HasPrefix :: "string \<Rightarrow> string \<Rightarrow> bool" where
  "HasPrefix s p = (take (length p) s = p)"

text \<open>
  \<^verbatim>\<open>strings.Replace(s, old, new, n)\<close> for \<open>n \<ge> 0\<close> and a non-empty \<open>old\<close> (the package
  calls it with \<^verbatim>\<open>"-"\<close> and \<^verbatim>\<open>"\n"\<close> and \<open>n = 1\<close>): the first \<open>n\<close> non-overlapping
  occurrences of \<open>old\<close> are replaced.
\<close>

function Replace :: "string \<Rightarrow> string \<Rightarrow> string \<Rightarrow> nat \<Rightarrow> string" where
  "Replace s old new n =
     (if n = 0 \<or> old = [] \<or> s = [] then s
      else if HasPrefix s old then new @ Replace (drop (length old) s) old new (n - 1)
      else hd s # Replace (tl s) old new n)"
  by pat_completeness auto
termination
  by (relation "measure (\<lambda>(s, old, new, n). length s)") auto

declare Replace.simps [simp del]

fun Join :: "string list \<Rightarrow> string \<Rightarrow> string" where
  "Join [] sep = []"
| "Join [e] sep = e"
| "Join (e # es) sep = e @ sep @ Join es sep"

text \<open>What \<^verbatim>\<open>fmt.Println(s)\<close> writes for one string operand.\<close>

definition Println :: "string \<Rightarrow> string" where
  "Println s = s @ [CHR 0x0A]"

text \<open>
  \<^verbatim>\<open>fmt.Sprint(a, b)\<close> for two string operands: a space is added between operands only
  when neither is a string, so the two are concatenated and a \<^verbatim>\<open>%s\<close> in the first
  is not a verb.
\<close>

definition Sprint2 :: "string \<Rightarrow> string \<Rightarrow> string" where
  "Sprint2 a b = a @ b"

text \<open>
  \<^verbatim>\<open>strings.Fields\<close> splits around each run of white space as \<^verbatim>\<open>unicode.IsSpace\<close>
  defines it. On the bytes of the string these are the ASCII bytes 9 to 13 and 32 and
  the UTF-8 encodings of U+0085, U+00A0, U+1680, U+2000 to U+200A, U+2028, U+2029,
  U+202F, U+205F and U+3000. \<open>spaceWidth\<close> is the number of bytes of the white space
  rune a string starts with, 0 when it starts with none.
\<close>

definition asciiSpace :: "char \<Rightarrow> bool" where
  "asciiSpace c = (let n = (of_char c :: nat) in (9 \<le> n \<and> n \<le> 13) \<or> n = 32)"

fun spaceWidth :: "string \<Rightarrow> nat" where
  "spaceWidth [] = 0"
| "spaceWidth (c # cs) =
     (if asciiSpace c then 1
      else if c = CHR 0xC2 then
        (case cs of
           d # _ \<Rightarrow> if d = CHR 0x85 \<or> d = CHR 0xA0 then 2 else 0
         | [] \<Rightarrow> 0)
      else if c = CHR 0xE1 then
        (case cs of
           d # e # _ \<Rightarrow> if d = CHR 0x9A \<and> e = CHR 0x80 then 3 else 0
         | _ \<Rightarrow> 0)
      else if c = CHR 0xE2 then
        (case cs of
           d # e # _ \<Rightarrow>
             if d = CHR 0x80 \<and>
                ((128 \<le> (of_char e :: nat) \<and> (of_char e :: nat) \<le> 138) \<or>
                 e = CHR 0xA8 \<or> e = CHR 0xA9 \<or> e = CHR 0xAF) then 3
             else if d = CHR 0x81 \<and> e = CHR 0x9F then 3
             else 0
         | _ \<Rightarrow> 0)
      else if c = CHR 0xE3 then
        (case cs of
           d # e # _ \<Rightarrow> if d = CHR 0x80 \<and> e = CHR 0x80 then 3 else 0
         | _ \<Rightarrow> 0)
      else 0)"

text \<open>
  \<open>fieldsFrom s cur skip\<close>: \<open>cur\<close> is the field being read and \<open>skip\<close> the number of
  bytes of the current white space rune still to pass over.
\<close>

fun fieldsFrom :: "string \<Rightarrow> string \<Rightarrow> nat \<Rightarrow> string list" where
  "fieldsFrom [] cur skip = (if cur = [] then [] else [cur])"
| "fieldsFrom (c # cs) cur skip =
     (if 0 < skip then fieldsFrom cs cur (skip - 1)
      else if 0 < spaceWidth (c # cs) then
        (if cur = [] then [] else [cur]) @ fieldsFrom cs [] (spaceWidth (c # cs) - 1)
      else fieldsFrom cs (cur @ [c]) 0)"

definition Fields :: "string \<Rightarrow> string list" where
  "Fields s = fieldsFrom s [] 0"

text \<open>
  \<^verbatim>\<open>strconv.ParseInt(s, 10, 64)\<close>: an optional sign, then one or more decimal digits
  (no underscores in base 10), the value within the range of \<^verbatim>\<open>int64\<close>.
\<close>

datatype numError = ErrSyntax | ErrRange

definition isDigit :: "char \<Rightarrow> bool" where
  "isDigit c = (48 \<le> (of_char c :: int) \<and> (of_char c :: int) \<le> 57)"

fun parseUintFrom :: "string \<Rightarrow> int \<Rightarrow> numError + int" where
  "parseUintFrom [] n = Inr n"
| "parseUintFrom (c # cs) n =
     (if \<not> isDigit c then Inl ErrSyntax
      else if 2 ^ 64 \<le> n * 10 + (of_char c - 48) then Inl ErrRange
      else parseUintFrom cs (n * 10 + (of_char c - 48)))"

definition ParseUint :: "string \<Rightarrow> numError + int" where
  "ParseUint s = (if s = [] then Inl ErrSyntax else parseUintFrom s 0)"

definition ParseInt :: "string \<Rightarrow> numError + 64 word" where
  "ParseInt s =
     (if s = [] then Inl ErrSyntax
      else
        let neg = (hd s = CHR 0x2D);
            s1 = (if hd s = CHR 0x2B \<or> hd s = CHR 0x2D then tl s else s)
        in case ParseUint s1 of
             Inl ErrSyntax \<Rightarrow> Inl ErrSyntax
           | Inl ErrRange \<Rightarrow> Inl ErrRange
           | Inr un \<Rightarrow>
               if \<not> neg \<and> 2 ^ 63 \<le> un then Inl ErrRange
               else if neg \<and> 2 ^ 63 < un then Inl ErrRange
               else Inr (if neg then - word_of_int un else word_of_int un))"

text \<open>
  \<^verbatim>\<open>strconv.ParseFloat(s, 64)\<close>. A \<^verbatim>\<open>float64\<close> is kept as its 64 bits (what
  \<^verbatim>\<open>math.Float64bits\<close> returns): the sign bit, eleven bits of exponent and 52 bits of
  fraction, so that the zero value of \<^verbatim>\<open>float64\<close> is the word 0. The function accepts,
  ignoring the case of letters, the names \<^verbatim>\<open>inf\<close> and \<^verbatim>\<open>infinity\<close> with an optional sign and
  the name \<^verbatim>\<open>nan\<close>; and, with an optional sign, a decimal number (digits with an optional
  point, then an optional exponent after \<^verbatim>\<open>e\<close>) or a hexadecimal one (after \<^verbatim>\<open>0x\<close>, hex
  digits with an optional point, then a binary exponent after \<^verbatim>\<open>p\<close>), where single
  underscores may separate digits. Its result is the \<^verbatim>\<open>float64\<close> nearest to the number
  written (ties to the even fraction), and a range error when that is beyond the largest
  finite \<^verbatim>\<open>float64\<close>. The functions below follow \<^verbatim>\<open>special\<close>, \<^verbatim>\<open>readFloat\<close> and
  \<^verbatim>\<open>underscoreOK\<close> of the package \<^verbatim>\<open>strconv\<close> for what is accepted; the value is rounded
  from the exact number written.
\<close>

type_synonym float64 = "64 word"

definition posInf :: float64 where
  "posInf = 0x7FF0000000000000"

definition negInf :: float64 where
  "negInf = 0xFFF0000000000000"

definition NaN :: float64 where
  "NaN = 0x7FF8000000000001"

text \<open>\<^verbatim>\<open>lower(c)\<close> of \<^verbatim>\<open>strconv\<close> is \<^verbatim>\<open>c | 0x20\<close>; here on the code of the byte.\<close>

definition lowerCode :: "char \<Rightarrow> nat" where
  "lowerCode c =
     (if ((of_char c :: nat) div 32) mod 2 = 0 then of_char c + 32 else of_char c)"

definition isHexLetter :: "char \<Rightarrow> bool" where
  "isHexLetter c = (97 \<le> lowerCode c \<and> lowerCode c \<le> 102)"

fun commonPrefixLenIgnoreCase :: "string \<Rightarrow> string \<Rightarrow> nat" where
  "commonPrefixLenIgnoreCase (c # cs) (p # ps) =
     (if (if 65 \<le> (of_char c :: nat) \<and> (of_char c :: nat) \<le> 90
          then (of_char c :: nat) + 32 else of_char c) = of_char p
      then Suc (commonPrefixLenIgnoreCase cs ps) else 0)"
| "commonPrefixLenIgnoreCase s prefix = 0"

text \<open>\<open>special s\<close>: the value and the number of bytes of the name \<open>s\<close> starts with.\<close>

definition special :: "string \<Rightarrow> (float64 \<times> nat) option" where
  "special s =
     (if s = [] then None
      else if hd s = CHR ''+'' \<or> hd s = CHR ''-'' \<or> hd s = CHR ''i'' \<or> hd s = CHR ''I'' then
        (let signed = (hd s = CHR ''+'' \<or> hd s = CHR ''-'');
             n0 = commonPrefixLenIgnoreCase (if signed then tl s else s) ''infinity'';
             n = (if 3 < n0 \<and> n0 < 8 then 3 else n0)
         in if n = 3 \<or> n = 8
            then Some (if hd s = CHR ''-'' then negInf else posInf, (if signed then 1 else 0) + n)
            else None)
      else if hd s = CHR ''n'' \<or> hd s = CHR ''N'' then
        (if commonPrefixLenIgnoreCase s ''nan'' = 3 then Some (NaN, 3) else None)
      else None)"

text \<open>
  The digits loop of \<^verbatim>\<open>readFloat\<close>: the number the digits read so far write in the
  base, the count of digits after the point, whether a point, a digit and an
  underscore were seen; the result ends with the bytes left.
\<close>

fun readMantissa ::
  "nat \<Rightarrow> string \<Rightarrow> nat \<Rightarrow> nat \<Rightarrow> bool \<Rightarrow> bool \<Rightarrow> bool \<Rightarrow> nat \<times> nat \<times> bool \<times> bool \<times> string"
where
  "readMantissa base [] mantissa fracDigits sawdot sawdigits underscores =
     (mantissa, fracDigits, sawdigits, underscores, [])"
| "readMantissa base (c # cs) mantissa fracDigits sawdot sawdigits underscores =
     (if c = CHR ''_'' then readMantissa base cs mantissa fracDigits sawdot sawdigits True
      else if c = CHR ''.'' then
        (if sawdot then (mantissa, fracDigits, sawdigits, underscores, c # cs)
         else readMantissa base cs mantissa fracDigits True sawdigits underscores)
      else if isDigit c then
        readMantissa base cs (mantissa * base + (of_char c - 48))
          (if sawdot then fracDigits + 1 else fracDigits) sawdot True underscores
      else if base = 16 \<and> isHexLetter c then
        readMantissa base cs (mantissa * 16 + (lowerCode c - 87))
          (if sawdot then fracDigits + 1 else fracDigits) sawdot True underscores
      else (mantissa, fracDigits, sawdigits, underscores, c # cs))"

text \<open>The digits of the exponent; \<^verbatim>\<open>readFloat\<close> stops adding digits from 10000 on.\<close>

fun readExponent :: "string \<Rightarrow> nat \<Rightarrow> bool \<Rightarrow> nat \<times> bool \<times> string" where
  "readExponent [] e underscores = (e, underscores, [])"
| "readExponent (c # cs) e underscores =
     (if c = CHR ''_'' then readExponent cs e True
      else if isDigit c then
        readExponent cs (if e < 10000 then e * 10 + (of_char c - 48) else e) underscores
      else (e, underscores, c # cs))"

datatype saw = SawStart | SawDigit | SawUnderscore | SawOther

fun underscoreScan :: "bool \<Rightarrow> string \<Rightarrow> saw \<Rightarrow> bool" where
  "underscoreScan hex [] saw = (saw \<noteq> SawUnderscore)"
| "underscoreScan hex (c # cs) saw =
     (if isDigit c \<or> (hex \<and> isHexLetter c) then underscoreScan hex cs SawDigit
      else if c = CHR ''_'' then
        (if saw \<noteq> SawDigit then False else underscoreScan hex cs SawUnderscore)
      else if saw = SawUnderscore then False
      else underscoreScan hex cs SawOther)"

definition underscoreOK :: "string \<Rightarrow> bool" where
  "underscoreOK s =
     (let s1 = (if 1 \<le> length s \<and> (hd s = CHR ''-'' \<or> hd s = CHR ''+'') then tl s else s)
      in if 2 \<le> length s1 \<and> hd s1 = CHR ''0'' \<and>
            (lowerCode (s1 ! 1) = 98 \<or> lowerCode (s1 ! 1) = 111 \<or> lowerCode (s1 ! 1) = 120)
         then underscoreScan (lowerCode (s1 ! 1) = 120) (drop 2 s1) SawDigit
         else underscoreScan False s1 SawStart)"

text \<open>
  \<open>readFloat s\<close>: \<open>None\<close> when \<open>s\<close> does not start with a number, and otherwise the sign,
  whether the number is hexadecimal, the mantissa \<open>m\<close> and the exponent \<open>k\<close> of the number
  written, which is \<open>m * 10 ^ k\<close> for a decimal and \<open>m * 2 ^ k\<close> for a hexadecimal number,
  and the bytes left after it.
\<close>

definition readFloat :: "string \<Rightarrow> (bool \<times> bool \<times> nat \<times> int \<times> string) option" where
  "readFloat s =
     (if s = [] then None
      else
        let neg = (hd s = CHR ''-'');
            s1 = (if hd s = CHR ''+'' \<or> hd s = CHR ''-'' then tl s else s);
            hex = (2 < length s1 \<and> hd s1 = CHR ''0'' \<and> lowerCode (s1 ! 1) = 120);
            digits = readMantissa (if hex then 16 else 10) (if hex then drop 2 s1 else s1)
                       0 0 False False False;
            mantissa = fst digits;
            dp = - int (if hex then 4 * fst (snd digits) else fst (snd digits));
            sawdigits = fst (snd (snd digits));
            underscores = fst (snd (snd (snd digits)));
            rest = snd (snd (snd (snd digits)))
        in if \<not> sawdigits then None
           else if rest \<noteq> [] \<and> lowerCode (hd rest) = (if hex then 112 else 101) then
             (let r1 = tl rest;
                  esign = (if r1 \<noteq> [] \<and> hd r1 = CHR ''-'' then - 1 else 1 :: int);
                  r2 = (if r1 \<noteq> [] \<and> (hd r1 = CHR ''+'' \<or> hd r1 = CHR ''-'') then tl r1 else r1);
                  ex = readExponent r2 0 underscores
              in if r2 = [] \<or> \<not> isDigit (hd r2) then None
                 else if fst (snd ex) \<and>
                         \<not> underscoreOK (take (length s - length (snd (snd ex))) s) then None
                 else Some (neg, hex, mantissa, dp + esign * int (fst ex), snd (snd ex)))
           else if hex then None
           else if underscores \<and> \<not> underscoreOK (take (length s - length rest) s) then None
           else Some (neg, hex, mantissa, dp, rest))"

text \<open>The number of bits of a natural number.\<close>

function bitLen :: "nat \<Rightarrow> nat" where
  "bitLen n = (if n = 0 then 0 else Suc (bitLen (n div 2)))"
  by pat_completeness auto
termination
  by (relation "measure (\<lambda>n. n)") auto

declare bitLen.simps [simp del]

text \<open>
  \<open>roundFloat64 num den\<close>: the bits of the \<^verbatim>\<open>float64\<close> nearest to the positive number
  \<open>num / den\<close>, \<open>None\<close> when that is beyond the largest finite one. With \<open>2 ^ e\<close> the
  power of two at or below the number, the fraction is a multiple of \<open>2 ^ q\<close> for
  \<open>q = max e (- 1022) - 52\<close>; the multiple \<open>n\<close> is the quotient rounded to nearest, ties
  to even; the bits are \<open>(q + 1074) * 2 ^ 52 + n\<close>, which also carries a rounded-up
  fraction into the exponent.
\<close>

definition roundFloat64 :: "nat \<Rightarrow> nat \<Rightarrow> int option" where
  "roundFloat64 num den =
     (if num = 0 then Some 0
      else
        let e0 = int (bitLen num) - int (bitLen den);
            e = (if 0 \<le> e0
                 then (if den * 2 ^ nat e0 \<le> num then e0 else e0 - 1)
                 else (if den \<le> num * 2 ^ nat (- e0) then e0 else e0 - 1));
            q = max e (- 1022) - 52;
            a = (if 0 \<le> q then num else num * 2 ^ nat (- q));
            b = (if 0 \<le> q then den * 2 ^ nat q else den);
            k = a div b;
            r = a mod b;
            n = (if 2 * r < b then k else if b < 2 * r then k + 1
                 else if even k then k else k + 1);
            bits = (q + 1074) * 2 ^ 52 + int n
        in if 2047 * 2 ^ 52 \<le> bits then None else Some bits)"

definition ParseFloat :: "string \<Rightarrow> numError + float64" where
  "ParseFloat s =
     (case special s of
        Some (f, n) \<Rightarrow> if n = length s then Inr f else Inl ErrSyntax
      | None \<Rightarrow>
          (case readFloat s of
             None \<Rightarrow> Inl ErrSyntax
           | Some (neg, hex, mantissa, k, rest) \<Rightarrow>
               if rest \<noteq> [] then Inl ErrSyntax
               else
                 (case roundFloat64
                         (if 0 \<le> k then mantissa * (if hex then 2 else 10) ^ nat k else mantissa)
                         (if 0 \<le> k then 1 else (if hex then 2 else 10) ^ nat (- k)) of
                    None \<Rightarrow> Inl ErrRange
                  | Some bits \<Rightarrow> Inr (word_of_int (bits + (if neg then 2 ^ 63 else 0))))))"

text \<open>
  The decoder \<^verbatim>\<open>floatVar.Set\<close> uses: the value when \<^verbatim>\<open>strconv.ParseFloat\<close> returns no
  error.
\<close>

definition decodeFloat :: "string \<Rightarrow> float64 option" where
  "decodeFloat s = (case ParseFloat s of Inl err \<Rightarrow> None | Inr f \<Rightarrow> Some f)"

section \<open>Typed value slots\<close>

datatype FlagArgType = IntFlag | Int64Flag | FloatFlag | StringFlag | BoolFlag | None_t

fun FlagTypeString :: "FlagArgType \<Rightarrow> string" where
  "FlagTypeString IntFlag = ''IntFlag''"
| "FlagTypeString Int64Flag = ''Int64Flag''"
| "FlagTypeString FloatFlag = ''FloatFlag''"
| "FlagTypeString StringFlag = ''StringFlag''"
| "FlagTypeString BoolFlag = ''BoolFlag''"
| "FlagTypeString None_t = ''None''"

text \<open>
  The five structs \<^verbatim>\<open>intVar\<close>, \<^verbatim>\<open>int64Var\<close>, \<^verbatim>\<open>floatVar\<close>, \<^verbatim>\<open>stringVar\<close> and \<^verbatim>\<open>boolVar\<close>
  have the same four fields and differ in the type of \<^verbatim>\<open>v_value\<close> only. Go's \<^verbatim>\<open>int\<close> is
  taken at its 64-bit size. The functions on slots and on the registry take the type of
  the float values as the type parameter \<open>'f\<close>, whose \<open>0\<close> is the zero value, and the
  decoder of floats as the parameter \<open>pf\<close>, \<open>None\<close> when it returns an error: what they
  do does not depend on how a float is decoded. In the program \<open>'f\<close> is \<^typ>\<open>float64\<close> and
  \<open>pf\<close> is \<^const>\<open>decodeFloat\<close>, that is \<^verbatim>\<open>strconv.ParseFloat(s, 64)\<close>.
\<close>

record 'v var =
  v_name :: string
  v_value :: 'v
  v_req :: bool
  v_loaded :: bool

datatype 'f arg =
    IntVar "64 word var"
  | Int64Var "64 word var"
  | FloatVar "'f var"
  | StringVar "string var"
  | BoolVar "bool var"

text \<open>The value \<^verbatim>\<open>Get\<close> returns as \<^verbatim>\<open>any\<close>: a value tagged with its dynamic type.\<close>

datatype 'f any =
    AnyInt "64 word"
  | AnyInt64 "64 word"
  | AnyFloat 'f
  | AnyString string
  | AnyBool bool

definition createIntVar :: "string \<Rightarrow> bool \<Rightarrow> 64 word var" where
  "createIntVar name req = \<lparr>v_name = name, v_value = 0, v_req = req, v_loaded = False\<rparr>"

definition createInt64Var :: "string \<Rightarrow> bool \<Rightarrow> 64 word var" where
  "createInt64Var name req = \<lparr>v_name = name, v_value = 0, v_req = req, v_loaded = False\<rparr>"

definition createFloatVar :: "string \<Rightarrow> bool \<Rightarrow> ('f::zero) var" where
  "createFloatVar name req = \<lparr>v_name = name, v_value = 0, v_req = req, v_loaded = False\<rparr>"

definition createStringVar :: "string \<Rightarrow> bool \<Rightarrow> string var" where
  "createStringVar name req = \<lparr>v_name = name, v_value = [], v_req = req, v_loaded = False\<rparr>"

definition createBoolVar :: "string \<Rightarrow> bool \<Rightarrow> bool var" where
  "createBoolVar name req = \<lparr>v_name = name, v_value = False, v_req = req, v_loaded = False\<rparr>"

fun ArgType :: "'f arg \<Rightarrow> FlagArgType" where
  "ArgType (IntVar vs) = IntFlag"
| "ArgType (Int64Var vs) = Int64Flag"
| "ArgType (FloatVar vs) = FloatFlag"
| "ArgType (StringVar vs) = StringFlag"
| "ArgType (BoolVar vs) = BoolFlag"

fun Name :: "'f arg \<Rightarrow> string" where
  "Name (IntVar vs) = v_name vs"
| "Name (Int64Var vs) = v_name vs"
| "Name (FloatVar vs) = v_name vs"
| "Name (StringVar vs) = v_name vs"
| "Name (BoolVar vs) = v_name vs"

text \<open>
  \<^verbatim>\<open>Set\<close> has no result in the source. Here it returns the slot after the call and the
  lines it printed.
\<close>

fun Set_arg :: "(string \<Rightarrow> 'f option) \<Rightarrow> 'f arg \<Rightarrow> string \<Rightarrow> 'f arg \<times> string list" where
  "Set_arg pf (IntVar vs) val =
     (case ParseInt val of
        Inl err \<Rightarrow> (IntVar vs, [Println ''Error setting integer flag variable''])
      | Inr sv \<Rightarrow> (IntVar (vs\<lparr>v_value := sv, v_loaded := True\<rparr>), []))"
| "Set_arg pf (Int64Var vs) val =
     (case ParseInt val of
        Inl err \<Rightarrow> (Int64Var vs, [Println ''Error seting integer flag variable''])
      | Inr sv \<Rightarrow> (Int64Var (vs\<lparr>v_value := sv, v_loaded := True\<rparr>), []))"
| "Set_arg pf (FloatVar vs) val =
     (case pf val of
        None \<Rightarrow> (FloatVar vs, [Println ''Error setting float in cmdline''])
      | Some v \<Rightarrow> (FloatVar (vs\<lparr>v_value := v, v_loaded := True\<rparr>), []))"
| "Set_arg pf (StringVar vs) val =
     (StringVar (vs\<lparr>v_value := val, v_loaded := True\<rparr>), [])"
| "Set_arg pf (BoolVar vs) val =
     (let v = (val = ''T'' \<or> val = ''t'' \<or> val = ''True'' \<or> val = ''true'')
      in (BoolVar (vs\<lparr>v_value := v, v_loaded := True\<rparr>), []))"

fun Get :: "'f arg \<Rightarrow> 'f any" where
  "Get (IntVar vs) = AnyInt (v_value vs)"
| "Get (Int64Var vs) = AnyInt64 (v_value vs)"
| "Get (FloatVar vs) = AnyFloat (v_value vs)"
| "Get (StringVar vs) = AnyString (v_value vs)"
| "Get (BoolVar vs) = AnyBool (v_value vs)"

fun Loaded :: "'f arg \<Rightarrow> bool" where
  "Loaded (IntVar vs) = v_loaded vs"
| "Loaded (Int64Var vs) = v_loaded vs"
| "Loaded (FloatVar vs) = v_loaded vs"
| "Loaded (StringVar vs) = v_loaded vs"
| "Loaded (BoolVar vs) = v_loaded vs"

fun Required :: "'f arg \<Rightarrow> bool" where
  "Required (IntVar vs) = v_req vs"
| "Required (Int64Var vs) = v_req vs"
| "Required (FloatVar vs) = v_req vs"
| "Required (StringVar vs) = v_req vs"
| "Required (BoolVar vs) = v_req vs"

section \<open>The flag registry\<close>

text \<open>
  \<^verbatim>\<open>CmdParser.vars\<close> is a Go map from flag names to slots. It is kept as an association
  list read through \<^const>\<open>map_of\<close> and written through \<^const>\<open>AList.update\<close>; the keys
  of the map are \<open>remdups (map fst (vars cp))\<close>. Go leaves the order of iteration over
  a map unspecified: the list fixes one order, and no theorem below depends on it.
\<close>

record 'f CmdParser =
  vars :: "(string \<times> 'f arg) list"

definition NewCmdParser :: "'f CmdParser" where
  "NewCmdParser = \<lparr>vars = []\<rparr>"

fun AddFlag :: "('f::zero) CmdParser \<Rightarrow> FlagArgType \<Rightarrow> string \<Rightarrow> bool \<Rightarrow> 'f CmdParser" where
  "AddFlag cp IntFlag arg_name arg_req =
     cp\<lparr>vars := AList.update arg_name (IntVar (createIntVar arg_name arg_req)) (vars cp)\<rparr>"
| "AddFlag cp Int64Flag arg_name arg_req =
     cp\<lparr>vars := AList.update arg_name (Int64Var (createInt64Var arg_name arg_req)) (vars cp)\<rparr>"
| "AddFlag cp FloatFlag arg_name arg_req =
     cp\<lparr>vars := AList.update arg_name (FloatVar (createFloatVar arg_name arg_req)) (vars cp)\<rparr>"
| "AddFlag cp StringFlag arg_name arg_req =
     cp\<lparr>vars := AList.update arg_name (StringVar (createStringVar arg_name arg_req)) (vars cp)\<rparr>"
| "AddFlag cp BoolFlag arg_name arg_req =
     cp\<lparr>vars := AList.update arg_name (BoolVar (createBoolVar arg_name arg_req)) (vars cp)\<rparr>"
| "AddFlag cp None_t arg_name arg_req = cp"

text \<open>
  The ways a call ends without returning: a method call on the nil interface value that
  a map lookup of a missing key yields, an explicit \<^verbatim>\<open>panic(msg)\<close>, an index or a slice
  bound out of range, and \<^verbatim>\<open>os.Exit(code)\<close>.
\<close>

datatype error =
    NilDereference
  | Panic string
  | IndexOutOfRange
  | SliceOutOfRange
  | Exit nat

definition SetVar ::
  "(string \<Rightarrow> 'f option) \<Rightarrow> 'f CmdParser \<Rightarrow> string \<Rightarrow> string \<Rightarrow> error + 'f CmdParser \<times> string list"
where
  "SetVar pf cp name val =
     (case map_of (vars cp) name of
        None \<Rightarrow> Inl NilDereference
      | Some a \<Rightarrow>
          Inr (cp\<lparr>vars := AList.update name (fst (Set_arg pf a val)) (vars cp)\<rparr>,
               snd (Set_arg pf a val)))"

definition GetVar :: "'f CmdParser \<Rightarrow> string \<Rightarrow> error + 'f any" where
  "GetVar cp name =
     (case map_of (vars cp) name of
        Some gv \<Rightarrow> Inr (Get gv)
      | None \<Rightarrow>
          Inl (Panic (''CmdParser.GetVar given unrecognized variable name '' @ name @ [CHR 0x0A])))"

definition IsFlag :: "'f CmdParser \<Rightarrow> string \<Rightarrow> bool" where
  "IsFlag cp name = (case map_of (vars cp) name of None \<Rightarrow> False | Some a \<Rightarrow> True)"

definition IsLoaded :: "'f CmdParser \<Rightarrow> string \<Rightarrow> bool" where
  "IsLoaded cp name =
     (if \<not> IsFlag cp name then False
      else case map_of (vars cp) name of Some a \<Rightarrow> Loaded a | None \<Rightarrow> False)"

definition IsRequired :: "'f CmdParser \<Rightarrow> string \<Rightarrow> bool" where
  "IsRequired cp name =
     (if \<not> IsFlag cp name then False
      else case map_of (vars cp) name of Some a \<Rightarrow> Required a | None \<Rightarrow> False)"

section \<open>The token parser\<close>

record flagValue =
  fv_flag :: string
  fv_value :: string

text \<open>
  The first loop of \<^verbatim>\<open>ParseFromString\<close>: \<open>Inr\<close> the pairs when it runs to the end,
  \<open>Inl\<close> the tokens from the offending one on when it returns early.
\<close>

function scanPieces :: "string list \<Rightarrow> nat \<Rightarrow> flagValue list \<Rightarrow> string list + flagValue list" where
  "scanPieces pieces idx cmdVar =
     (if idx < length pieces then
        if HasPrefix (pieces ! idx) ''-'' \<and>
           (idx = length pieces - 1 \<or> HasPrefix (pieces ! (idx + 1)) ''-'') then
          scanPieces pieces (idx + 1)
            (cmdVar @ [\<lparr>fv_flag = Replace (pieces ! idx) ''-'' '''' 1, fv_value = ''true''\<rparr>])
        else if HasPrefix (pieces ! idx) ''-'' then
          scanPieces pieces (idx + 2)
            (cmdVar @ [\<lparr>fv_flag = Replace (pieces ! idx) ''-'' '''' 1,
                        fv_value = pieces ! (idx + 1)\<rparr>])
        else Inl (drop idx pieces)
      else Inr cmdVar)"
  by pat_completeness auto
termination
  by (relation "measure (\<lambda>(pieces, idx, cmdVar). length pieces - idx)") auto

declare scanPieces.simps [simp del]

text \<open>The second loop: the names of the pairs whose flag is not declared.\<close>

fun undeclared :: "'f CmdParser \<Rightarrow> flagValue list \<Rightarrow> string list \<Rightarrow> string list" where
  "undeclared cp [] errMsg = errMsg"
| "undeclared cp (fv # fvs) errMsg =
     (if map_of (vars cp) (fv_flag fv) = None
      then undeclared cp fvs (errMsg @ [''-'' @ fv_flag fv])
      else undeclared cp fvs errMsg)"

text \<open>The third loop: \<^verbatim>\<open>SetVar\<close> for each pair whose flag is declared.\<close>

fun setVars ::
  "(string \<Rightarrow> 'f option) \<Rightarrow> 'f CmdParser \<Rightarrow> flagValue list \<Rightarrow> string list \<Rightarrow>
   error + 'f CmdParser \<times> string list"
where
  "setVars pf cp [] out = Inr (cp, out)"
| "setVars pf cp (fv # fvs) out =
     (if map_of (vars cp) (fv_flag fv) \<noteq> None then
        (case SetVar pf cp (fv_flag fv) (fv_value fv) of
           Inl e \<Rightarrow> Inl e
         | Inr (cp', printed) \<Rightarrow> setVars pf cp' fvs (out @ printed))
      else setVars pf cp fvs out)"

text \<open>The fourth loop, over the entries of the map: the required slots not loaded.\<close>

fun missing :: "'f CmdParser \<Rightarrow> string list \<Rightarrow> string list \<Rightarrow> string list" where
  "missing cp [] errMsg = errMsg"
| "missing cp (name # names) errMsg =
     (case map_of (vars cp) name of
        Some a \<Rightarrow>
          if Required a \<and> \<not> Loaded a then missing cp names (errMsg @ [''-'' @ name])
          else missing cp names errMsg
      | None \<Rightarrow> missing cp names errMsg)"

text \<open>
  \<^verbatim>\<open>ParseFromString\<close> returns its boolean, the registry after the call and the text of
  each print call, in order.
\<close>

definition ParseFromString ::
  "(string \<Rightarrow> 'f option) \<Rightarrow> 'f CmdParser \<Rightarrow> string \<Rightarrow> error + bool \<times> 'f CmdParser \<times> string list"
where
  "ParseFromString pf cp cmd_string =
     (case scanPieces (Fields cmd_string) 0 [] of
        Inl rest \<Rightarrow>
          Inr (False, cp,
               [''formatting problem in command line from '' @ Join rest '' '' @ [CHR 0x0A]])
      | Inr cmdVar \<Rightarrow>
          (let errMsg = undeclared cp cmdVar [];
               out1 = (if 0 < length errMsg
                       then [Println (''Flags not declared in CmdParser: '' @ Join errMsg '','' @
                                      '', ignored'')]
                       else [])
           in case setVars pf cp cmdVar out1 of
                Inl e \<Rightarrow> Inl e
              | Inr (cp', out2) \<Rightarrow>
                  (let errMsg2 = missing cp' (remdups (map fst (vars cp'))) []
                   in if 0 < length errMsg2
                      then Inr (False, cp',
                                out2 @ [Println (Sprint2 ''Flags required but missing: %s''
                                                   (Join errMsg2 '',''))])
                      else Inr (True, cp', out2))))"

text \<open>\<open>args\<close> is \<^verbatim>\<open>os.Args\<close>.\<close>

definition ParseFromCmdLine ::
  "(string \<Rightarrow> 'f option) \<Rightarrow> 'f CmdParser \<Rightarrow> string list \<Rightarrow>
   error + bool \<times> 'f CmdParser \<times> string list"
where
  "ParseFromCmdLine pf cp args =
     (if length args < 1 then Inl SliceOutOfRange
      else ParseFromString pf cp (Join (drop 1 args) '' ''))"

section \<open>Input from a file\<close>

text \<open>
  \<^verbatim>\<open>string(b)\<close> for a byte \<open>b\<close> is the UTF-8 encoding of the code point \<open>b\<close>: one byte
  below 128, two bytes from 128 on. It is never the empty string.
\<close>

definition string_of_byte :: "char \<Rightarrow> string" where
  "string_of_byte b =
     (if (of_char b :: nat) < 128 then [b]
      else [char_of (192 + (of_char b :: nat) div 64), char_of (128 + (of_char b :: nat) mod 64)])"

text \<open>
  The inner loop of \<^verbatim>\<open>ParseFromFile\<close> over one non-empty line: the value of
  \<^verbatim>\<open>nxt_line\<close> when the loop is left.
\<close>

function stripComment :: "string \<Rightarrow> nat \<Rightarrow> nat \<Rightarrow> string" where
  "stripComment nxt_line whitespace idx =
     (if idx < length nxt_line then
        if string_of_byte (nxt_line ! idx) = '''' \<or>
           string_of_byte (nxt_line ! idx) = [CHR 0x09] then
          stripComment nxt_line (whitespace + 1) (idx + 1)
        else if string_of_byte (nxt_line ! idx) = ''#'' then
          (if whitespace = idx then ''''
           else take (idx - whitespace) (drop whitespace nxt_line))
        else stripComment nxt_line whitespace (idx + 1)
      else nxt_line)"
  by pat_completeness auto
termination
  by (relation "measure (\<lambda>(nxt_line, whitespace, idx). length nxt_line - idx)") auto

declare stripComment.simps [simp del]

text \<open>The outer loop, over the lines the scanner yields; the result is \<^verbatim>\<open>cmd_string\<close>.\<close>

fun collectLines :: "string list \<Rightarrow> string \<Rightarrow> string" where
  "collectLines [] cmd_string = cmd_string"
| "collectLines (nxt_line # rest) cmd_string =
     (if nxt_line = '''' then collectLines rest cmd_string
      else if stripComment nxt_line 0 0 \<noteq> '''' then
        collectLines rest
          (cmd_string @ '' '' @ Replace (stripComment nxt_line 0 0) [CHR 0x0A] '''' 1)
      else collectLines rest cmd_string)"

text \<open>
  The lines \<^verbatim>\<open>bufio.Scanner\<close> yields for the content of a file: split at each newline,
  one trailing carriage return dropped, a last line with no newline kept when it is
  not empty. The scanner's buffer holds \<^verbatim>\<open>bufio.MaxScanTokenSize\<close> bytes: when a line
  reaches that many bytes before its newline, \<^verbatim>\<open>Scan\<close> returns false, and the loop of
  \<^verbatim>\<open>ParseFromFile\<close> ends without that line and the lines after it.
\<close>

definition MaxScanTokenSize :: nat where
  "MaxScanTokenSize = 64 * 1024"

definition dropCR :: "string \<Rightarrow> string" where
  "dropCR l = (if l \<noteq> [] \<and> last l = CHR 0x0D then butlast l else l)"

fun scanLinesFrom :: "string \<Rightarrow> string \<Rightarrow> string list" where
  "scanLinesFrom [] cur = (if cur = [] then [] else [dropCR cur])"
| "scanLinesFrom (c # cs) cur =
     (if c = CHR 0x0A then dropCR cur # scanLinesFrom cs []
      else if MaxScanTokenSize \<le> length cur + 1 then []
      else scanLinesFrom cs (cur @ [c]))"

text \<open>\<open>fs filename\<close> is the content of the file, \<open>None\<close> when it cannot be opened.\<close>

definition ParseFromFile ::
  "(string \<Rightarrow> 'f option) \<Rightarrow> (string \<Rightarrow> string option) \<Rightarrow> 'f CmdParser \<Rightarrow> string \<Rightarrow>
   error + bool \<times> 'f CmdParser \<times> string list"
where
  "ParseFromFile pf fs cp filename =
     (case fs filename of
        None \<Rightarrow> Inr (False, cp, [Println ''Cannot open command line file''])
      | Some content \<Rightarrow> ParseFromString pf cp (collectLines (scanLinesFrom content []) ''''))"

section \<open>The entry point\<close>

definition Parse ::
  "(string \<Rightarrow> 'f option) \<Rightarrow> (string \<Rightarrow> string option) \<Rightarrow> 'f CmdParser \<Rightarrow> string list \<Rightarrow>
   error + bool \<times> 'f CmdParser \<times> string list"
where
  "Parse pf fs cp args =
     (if length args = 1 then Inl (Exit 1)
      else
        case (if 1 < length args \<and> args ! 1 = ''-is'' then
                (if 2 < length args then ParseFromFile pf fs cp (args ! 2)
                 else Inl IndexOutOfRange)
              else ParseFromCmdLine pf cp args) of
          Inl e \<Rightarrow> Inl e
        | Inr (parsedOK, cp', out) \<Rightarrow>
            if \<not> parsedOK then Inl (Panic ''Command line parsing error'')
            else Inr (True, cp', out))"

section \<open>Vocabulary of the specification\<close>

text \<open>
  The definitions of this section are not functions of the source. They follow the
  words of the specification and of the claims, so that the theorems can say what the
  functions above compute without repeating how they compute it.
\<close>

text \<open>
  The pair the specification assigns to the flag token at position \<open>i\<close>: the name is the
  token with exactly one leading \<^verbatim>\<open>-\<close> stripped; the value is the literal \<^verbatim>\<open>"true"\<close> when
  the token is the last one or the next token is a flag token, and the next token
  otherwise.
\<close>

definition pairAt :: "string list \<Rightarrow> nat \<Rightarrow> flagValue" where
  "pairAt pieces i =
     \<lparr>fv_flag = drop 1 (pieces ! i),
      fv_value = (if i + 1 = length pieces \<or> HasPrefix (pieces ! (i + 1)) ''-'' then ''true''
                  else pieces ! (i + 1))\<rparr>"

text \<open>
  A token that does not begin with \<^verbatim>\<open>-\<close> and is not the value of the flag token before
  it: it is the first token, or the token before it does not begin with \<^verbatim>\<open>-\<close> either.
\<close>

definition offending :: "string list \<Rightarrow> nat \<Rightarrow> bool" where
  "offending pieces i =
     (i < length pieces \<and> \<not> HasPrefix (pieces ! i) ''-'' \<and>
      (i = 0 \<or> \<not> HasPrefix (pieces ! (i - 1)) ''-''))"

text \<open>
  The value a raw string decodes to for a kind, \<open>None\<close> when it does not decode
  (string and boolean slots decode every string).
\<close>

fun decodeAs :: "(string \<Rightarrow> 'f option) \<Rightarrow> FlagArgType \<Rightarrow> string \<Rightarrow> 'f any option" where
  "decodeAs pf IntFlag raw = (case ParseInt raw of Inl err \<Rightarrow> None | Inr sv \<Rightarrow> Some (AnyInt sv))"
| "decodeAs pf Int64Flag raw = (case ParseInt raw of Inl err \<Rightarrow> None | Inr sv \<Rightarrow> Some (AnyInt64 sv))"
| "decodeAs pf FloatFlag raw = map_option AnyFloat (pf raw)"
| "decodeAs pf StringFlag raw = Some (AnyString raw)"
| "decodeAs pf BoolFlag raw =
     Some (AnyBool (raw = ''T'' \<or> raw = ''t'' \<or> raw = ''True'' \<or> raw = ''true''))"
| "decodeAs pf None_t raw = None"

text \<open>The zero value of a kind: 0, 0, 0.0, the empty string, false.\<close>

fun zeroValue :: "FlagArgType \<Rightarrow> ('f::zero) any option" where
  "zeroValue IntFlag = Some (AnyInt 0)"
| "zeroValue Int64Flag = Some (AnyInt64 0)"
| "zeroValue FloatFlag = Some (AnyFloat 0)"
| "zeroValue StringFlag = Some (AnyString '''')"
| "zeroValue BoolFlag = Some (AnyBool False)"
| "zeroValue None_t = None"

text \<open>The slot after a call of \<^verbatim>\<open>Set\<close>, and the raw values an input gives for a flag name.\<close>

definition setSlot :: "(string \<Rightarrow> 'f option) \<Rightarrow> 'f arg \<Rightarrow> string \<Rightarrow> 'f arg" where
  "setSlot pf a raw = fst (Set_arg pf a raw)"

definition valuesFor :: "string \<Rightarrow> flagValue list \<Rightarrow> string list" where
  "valuesFor name fvs = map fv_value (filter (\<lambda>fv. fv_flag fv = name) fvs)"

text \<open>
  A base-10 floating point number, as the words say: an optional sign, decimal digits
  with an optional point among them, at least one digit, and an optional exponent, which
  is \<^verbatim>\<open>e\<close> or \<^verbatim>\<open>E\<close>, an optional sign and decimal digits.
\<close>

definition base10Float :: "string \<Rightarrow> bool" where
  "base10Float s =
     (let s1 = (if s \<noteq> [] \<and> (hd s = CHR ''+'' \<or> hd s = CHR ''-'') then tl s else s);
          whole = takeWhile isDigit s1;
          r1 = dropWhile isDigit s1;
          point = (r1 \<noteq> [] \<and> hd r1 = CHR ''.'');
          part = (if point then takeWhile isDigit (tl r1) else []);
          r2 = (if point then dropWhile isDigit (tl r1) else r1);
          r3 = (if r2 \<noteq> [] \<and> (hd r2 = CHR ''e'' \<or> hd r2 = CHR ''E'') then tl r2 else []);
          r4 = (if r3 \<noteq> [] \<and> (hd r3 = CHR ''+'' \<or> hd r3 = CHR ''-'') then tl r3 else r3)
      in (whole \<noteq> [] \<or> part \<noteq> []) \<and>
         (r2 = [] \<or>
          ((hd r2 = CHR ''e'' \<or> hd r2 = CHR ''E'') \<and> r4 \<noteq> [] \<and> list_all isDigit r4)))"

text \<open>
  A history of calls on a registry, for what holds of a flag after any of them. Each
  call is one of the functions above that change the registry or may; a call that
  panics or exits ends the history.
\<close>

datatype call =
    CallAddFlag FlagArgType string bool
  | CallSetVar string string
  | CallParseFromString string
  | CallParseFromFile "string \<Rightarrow> string option" string
  | CallParseFromCmdLine "string list"
  | CallParse "string \<Rightarrow> string option" "string list"

fun registryOf :: "error + bool \<times> 'f CmdParser \<times> string list \<Rightarrow> error + 'f CmdParser" where
  "registryOf (Inl e) = Inl e"
| "registryOf (Inr (ok, cp, out)) = Inr cp"

fun step :: "(string \<Rightarrow> 'f option) \<Rightarrow> ('f::zero) CmdParser \<Rightarrow> call \<Rightarrow> error + 'f CmdParser" where
  "step pf cp (CallAddFlag kind name req) = Inr (AddFlag cp kind name req)"
| "step pf cp (CallSetVar name raw) =
     (case SetVar pf cp name raw of Inl e \<Rightarrow> Inl e | Inr (cp', out) \<Rightarrow> Inr cp')"
| "step pf cp (CallParseFromString s) = registryOf (ParseFromString pf cp s)"
| "step pf cp (CallParseFromFile fs filename) = registryOf (ParseFromFile pf fs cp filename)"
| "step pf cp (CallParseFromCmdLine args) = registryOf (ParseFromCmdLine pf cp args)"
| "step pf cp (CallParse fs args) = registryOf (Parse pf fs cp args)"

fun run :: "(string \<Rightarrow> 'f option) \<Rightarrow> ('f::zero) CmdParser \<Rightarrow> call list \<Rightarrow> error + 'f CmdParser" where
  "run pf cp [] = Inr cp"
| "run pf cp (c # cs) = (case step pf cp c of Inl e \<Rightarrow> Inl e | Inr cp' \<Rightarrow> run pf cp' cs)"

text \<open>
  The input string gives the flag \<open>name\<close> no value that \<open>kind\<close> decodes; and the same of a
  call: it does not register \<open>name\<close>, and the string it sets or parses, if any, gives
  \<open>name\<close> no value that \<open>kind\<close> decodes.
\<close>

definition noValueIn :: "(string \<Rightarrow> 'f option) \<Rightarrow> FlagArgType \<Rightarrow> string \<Rightarrow> string \<Rightarrow> bool" where
  "noValueIn pf kind name s =
     (case scanPieces (Fields s) 0 [] of
        Inl rest \<Rightarrow> True
      | Inr cmdVar \<Rightarrow> list_all (\<lambda>raw. decodeAs pf kind raw = None) (valuesFor name cmdVar))"

fun givesNoValue :: "(string \<Rightarrow> 'f option) \<Rightarrow> FlagArgType \<Rightarrow> string \<Rightarrow> call \<Rightarrow> bool" where
  "givesNoValue pf kind name (CallAddFlag k n req) = (n \<noteq> name)"
| "givesNoValue pf kind name (CallSetVar n raw) = (n \<noteq> name \<or> decodeAs pf kind raw = None)"
| "givesNoValue pf kind name (CallParseFromString s) = noValueIn pf kind name s"
| "givesNoValue pf kind name (CallParseFromFile fs filename) =
     (case fs filename of
        None \<Rightarrow> True
      | Some content \<Rightarrow> noValueIn pf kind name (collectLines (scanLinesFrom content []) ''''))"
| "givesNoValue pf kind name (CallParseFromCmdLine args) =
     noValueIn pf kind name (Join (drop 1 args) '' '')"
| "givesNoValue pf kind name (CallParse fs args) =
     (if 1 < length args \<and> args ! 1 = ''-is'' then
        (if 2 < length args then
           (case fs (args ! 2) of
              None \<Rightarrow> True
            | Some content \<Rightarrow> noValueIn pf kind name (collectLines (scanLinesFrom content []) ''''))
         else True)
      else noValueIn pf kind name (Join (drop 1 args) '' ''))"

section \<open>Auxiliary facts\<close>

subsection \<open>The scan loop\<close>

lemma Replace_dash: "HasPrefix t ''-'' \<Longrightarrow> Replace t ''-'' '''' 1 = drop 1 t"
  by (subst Replace.simps, subst Replace.simps) (auto simp: HasPrefix_def)

lemma scanPieces_bare:
  "idx < length pieces \<Longrightarrow> HasPrefix (pieces ! idx) ''-'' \<Longrightarrow>
   idx = length pieces - 1 \<or> HasPrefix (pieces ! (idx + 1)) ''-'' \<Longrightarrow>
   scanPieces pieces idx acc =
     scanPieces pieces (idx + 1)
       (acc @ [\<lparr>fv_flag = Replace (pieces ! idx) ''-'' '''' 1, fv_value = ''true''\<rparr>])"
  by (subst scanPieces.simps) (simp only: if_True simp_thms)

lemma scanPieces_valued:
  "idx < length pieces \<Longrightarrow> HasPrefix (pieces ! idx) ''-'' \<Longrightarrow>
   \<not> (idx = length pieces - 1 \<or> HasPrefix (pieces ! (idx + 1)) ''-'') \<Longrightarrow>
   scanPieces pieces idx acc =
     scanPieces pieces (idx + 2)
       (acc @ [\<lparr>fv_flag = Replace (pieces ! idx) ''-'' '''' 1, fv_value = pieces ! (idx + 1)\<rparr>])"
  by (subst scanPieces.simps) (simp only: if_True if_False simp_thms)

lemma scanPieces_reject:
  "idx < length pieces \<Longrightarrow> \<not> HasPrefix (pieces ! idx) ''-'' \<Longrightarrow>
   scanPieces pieces idx acc = Inl (drop idx pieces)"
  by (subst scanPieces.simps) simp

lemma scanPieces_done:
  "\<not> idx < length pieces \<Longrightarrow> scanPieces pieces idx acc = Inr acc"
  by (subst scanPieces.simps) simp

lemma scan_ok:
  "(\<forall>i. idx \<le> i \<and> i < length pieces \<and> \<not> HasPrefix (pieces ! i) ''-'' \<longrightarrow>
        idx < i \<and> HasPrefix (pieces ! (i - 1)) ''-'') \<Longrightarrow>
   scanPieces pieces idx acc =
     Inr (acc @ map (pairAt pieces) (filter (\<lambda>i. HasPrefix (pieces ! i) ''-'') [idx..<length pieces]))"
proof (induction pieces idx acc rule: scanPieces.induct)
  case (1 pieces idx cmdVar)
  show ?case
  proof (cases "idx < length pieces")
    case False
    then show ?thesis by (simp add: scanPieces_done)
  next
    case inb: True
    have flag: "HasPrefix (pieces ! idx) ''-''"
      using "1.prems" inb by blast
    show ?thesis
    proof (cases "idx = length pieces - 1 \<or> HasPrefix (pieces ! (idx + 1)) ''-''")
      case bare: True
      have pre: "\<forall>i. idx + 1 \<le> i \<and> i < length pieces \<and> \<not> HasPrefix (pieces ! i) ''-'' \<longrightarrow>
                   idx + 1 < i \<and> HasPrefix (pieces ! (i - 1)) ''-''"
      proof (intro allI impI)
        fix i assume h: "idx + 1 \<le> i \<and> i < length pieces \<and> \<not> HasPrefix (pieces ! i) ''-''"
        then have "idx < i \<and> HasPrefix (pieces ! (i - 1)) ''-''" using "1.prems" by auto
        moreover have "i \<noteq> idx + 1" using h bare by auto
        ultimately show "idx + 1 < i \<and> HasPrefix (pieces ! (i - 1)) ''-''" using h by auto
      qed
      have ih: "scanPieces pieces (idx + 1)
                  (cmdVar @ [\<lparr>fv_flag = Replace (pieces ! idx) ''-'' '''' 1, fv_value = ''true''\<rparr>]) =
                Inr ((cmdVar @ [\<lparr>fv_flag = Replace (pieces ! idx) ''-'' '''' 1, fv_value = ''true''\<rparr>]) @
                     map (pairAt pieces) (filter (\<lambda>i. HasPrefix (pieces ! i) ''-'') [idx + 1..<length pieces]))"
        using "1.IH"(1) [OF inb _ pre] flag bare by simp
      have up: "[idx..<length pieces] = idx # [idx + 1..<length pieces]"
        using inb by (simp add: upt_conv_Cons)
      have pa: "pairAt pieces idx = \<lparr>fv_flag = Replace (pieces ! idx) ''-'' '''' 1, fv_value = ''true''\<rparr>"
        using bare inb Replace_dash [OF flag] by (auto simp: pairAt_def)
      show ?thesis
        using ih by (simp add: scanPieces_bare [OF inb flag bare] up pa flag)
    next
      case valued: False
      then have nxt: "idx + 1 < length pieces" "\<not> HasPrefix (pieces ! (idx + 1)) ''-''"
        using inb by auto
      have pre: "\<forall>i. idx + 2 \<le> i \<and> i < length pieces \<and> \<not> HasPrefix (pieces ! i) ''-'' \<longrightarrow>
                   idx + 2 < i \<and> HasPrefix (pieces ! (i - 1)) ''-''"
      proof (intro allI impI)
        fix i assume h: "idx + 2 \<le> i \<and> i < length pieces \<and> \<not> HasPrefix (pieces ! i) ''-''"
        then have a: "idx < i \<and> HasPrefix (pieces ! (i - 1)) ''-''" using "1.prems" by auto
        have "i \<noteq> idx + 2"
        proof
          assume "i = idx + 2"
          then have "i - 1 = idx + 1" by simp
          with a nxt show False by simp
        qed
        then show "idx + 2 < i \<and> HasPrefix (pieces ! (i - 1)) ''-''" using h a by auto
      qed
      have ih: "scanPieces pieces (idx + 2)
                  (cmdVar @ [\<lparr>fv_flag = Replace (pieces ! idx) ''-'' '''' 1, fv_value = pieces ! (idx + 1)\<rparr>]) =
                Inr ((cmdVar @ [\<lparr>fv_flag = Replace (pieces ! idx) ''-'' '''' 1, fv_value = pieces ! (idx + 1)\<rparr>]) @
                     map (pairAt pieces) (filter (\<lambda>i. HasPrefix (pieces ! i) ''-'') [idx + 2..<length pieces]))"
        using "1.IH"(2) [OF inb _ flag pre] valued by simp
      have up: "[idx..<length pieces] = idx # (idx + 1) # [idx + 2..<length pieces]"
        using nxt by (simp add: upt_conv_Cons)
      have pa: "pairAt pieces idx = \<lparr>fv_flag = Replace (pieces ! idx) ''-'' '''' 1, fv_value = pieces ! (idx + 1)\<rparr>"
        using valued nxt Replace_dash [OF flag] by (auto simp: pairAt_def)
      show ?thesis
        using ih nxt by (simp add: scanPieces_valued [OF inb flag valued] up pa flag)
    qed
  qed
qed

lemma scan_bad:
  "idx \<le> i \<Longrightarrow> i < length pieces \<Longrightarrow> \<not> HasPrefix (pieces ! i) ''-'' \<Longrightarrow>
   i = idx \<or> \<not> HasPrefix (pieces ! (i - 1)) ''-'' \<Longrightarrow>
   \<exists>j. idx \<le> j \<and> j \<le> i \<and> \<not> HasPrefix (pieces ! j) ''-'' \<and>
       (j = idx \<or> \<not> HasPrefix (pieces ! (j - 1)) ''-'') \<and>
       (\<forall>k. idx \<le> k \<and> k < j \<and> \<not> HasPrefix (pieces ! k) ''-'' \<longrightarrow>
            idx < k \<and> HasPrefix (pieces ! (k - 1)) ''-'') \<and>
       scanPieces pieces idx acc = Inl (drop j pieces)"
proof (induction pieces idx acc rule: scanPieces.induct)
  case (1 pieces idx cmdVar)
  have inb: "idx < length pieces" using "1.prems" by simp
  show ?case
  proof (cases "HasPrefix (pieces ! idx) ''-''")
    case False
    then have "scanPieces pieces idx cmdVar = Inl (drop idx pieces)"
      using inb by (simp add: scanPieces_reject)
    with False "1.prems" show ?thesis by (intro exI [of _ idx]) auto
  next
    case flag: True
    then have ne: "i \<noteq> idx" using "1.prems" by auto
    show ?thesis
    proof (cases "idx = length pieces - 1 \<or> HasPrefix (pieces ! (idx + 1)) ''-''")
      case bare: True
      have "i \<noteq> idx + 1" using bare "1.prems" by auto
      then have p: "idx + 1 \<le> i" "i = idx + 1 \<or> \<not> HasPrefix (pieces ! (i - 1)) ''-''"
        using ne "1.prems" by auto
      obtain j where j: "idx + 1 \<le> j" "j \<le> i" "\<not> HasPrefix (pieces ! j) ''-''"
          "j = idx + 1 \<or> \<not> HasPrefix (pieces ! (j - 1)) ''-''"
          "\<forall>k. idx + 1 \<le> k \<and> k < j \<and> \<not> HasPrefix (pieces ! k) ''-'' \<longrightarrow>
               idx + 1 < k \<and> HasPrefix (pieces ! (k - 1)) ''-''"
          "scanPieces pieces (idx + 1)
             (cmdVar @ [\<lparr>fv_flag = Replace (pieces ! idx) ''-'' '''' 1, fv_value = ''true''\<rparr>]) =
           Inl (drop j pieces)"
        using "1.IH"(1) [OF inb _ p(1) "1.prems"(2) "1.prems"(3) p(2)] flag bare by auto
      have jne: "j \<noteq> idx + 1" using j(2,3) bare "1.prems" by auto
      have res: "scanPieces pieces idx cmdVar = Inl (drop j pieces)"
        using j(6) scanPieces_bare [OF inb flag bare] by simp
      have least: "\<forall>k. idx \<le> k \<and> k < j \<and> \<not> HasPrefix (pieces ! k) ''-'' \<longrightarrow>
            idx < k \<and> HasPrefix (pieces ! (k - 1)) ''-''"
      proof (intro allI impI)
        fix k assume h: "idx \<le> k \<and> k < j \<and> \<not> HasPrefix (pieces ! k) ''-''"
        then have "k \<noteq> idx" using flag by auto
        then have "idx + 1 \<le> k" using h by simp
        then show "idx < k \<and> HasPrefix (pieces ! (k - 1)) ''-''" using j(5) h by auto
      qed
      show ?thesis
        using j(1,2,3,4) jne res least by (intro exI [of _ j]) auto
    next
      case valued: False
      then have nxt: "idx + 1 < length pieces" "\<not> HasPrefix (pieces ! (idx + 1)) ''-''"
        using inb by auto
      have "i \<noteq> idx + 1" using flag "1.prems" ne by auto
      then have p: "idx + 2 \<le> i" "i = idx + 2 \<or> \<not> HasPrefix (pieces ! (i - 1)) ''-''"
        using ne "1.prems" by auto
      obtain j where j: "idx + 2 \<le> j" "j \<le> i" "\<not> HasPrefix (pieces ! j) ''-''"
          "j = idx + 2 \<or> \<not> HasPrefix (pieces ! (j - 1)) ''-''"
          "\<forall>k. idx + 2 \<le> k \<and> k < j \<and> \<not> HasPrefix (pieces ! k) ''-'' \<longrightarrow>
               idx + 2 < k \<and> HasPrefix (pieces ! (k - 1)) ''-''"
          "scanPieces pieces (idx + 2)
             (cmdVar @ [\<lparr>fv_flag = Replace (pieces ! idx) ''-'' '''' 1, fv_value = pieces ! (idx + 1)\<rparr>]) =
           Inl (drop j pieces)"
        using "1.IH"(2) [OF inb _ flag p(1) "1.prems"(2) "1.prems"(3) p(2)] valued by auto
      have prev: "\<not> HasPrefix (pieces ! (j - 1)) ''-''"
      proof (cases "j = idx + 2")
        case True
        then have "j - 1 = idx + 1" by simp
        then show ?thesis using nxt by simp
      next
        case False
        then show ?thesis using j(4) by simp
      qed
      have res: "scanPieces pieces idx cmdVar = Inl (drop j pieces)"
        using j(6) scanPieces_valued [OF inb flag valued] by simp
      have least: "\<forall>k. idx \<le> k \<and> k < j \<and> \<not> HasPrefix (pieces ! k) ''-'' \<longrightarrow>
            idx < k \<and> HasPrefix (pieces ! (k - 1)) ''-''"
      proof (intro allI impI)
        fix k assume h: "idx \<le> k \<and> k < j \<and> \<not> HasPrefix (pieces ! k) ''-''"
        then have k0: "k \<noteq> idx" using flag by auto
        show "idx < k \<and> HasPrefix (pieces ! (k - 1)) ''-''"
        proof (cases "k = idx + 1")
          case True
          then show ?thesis using flag by simp
        next
          case False
          then have "idx + 2 \<le> k" using k0 h by simp
          then show ?thesis using j(5) h by auto
        qed
      qed
      show ?thesis
        using j(1,2,3) prev res least by (intro exI [of _ j]) auto
    qed
  qed
qed
subsection \<open>Slots under repeated \<^verbatim>\<open>Set\<close>\<close>

lemma Set_arg_kind [simp]: "ArgType (fst (Set_arg pf a raw)) = ArgType a"
  by (cases a) (auto simp: Let_def split: sum.splits option.splits)

lemma Set_arg_req [simp]: "Required (fst (Set_arg pf a raw)) = Required a"
  by (cases a) (auto simp: Let_def split: sum.splits option.splits)

lemma Set_arg_name [simp]: "Name (fst (Set_arg pf a raw)) = Name a"
  by (cases a) (auto simp: Let_def split: sum.splits option.splits)

lemma Set_arg_undecodable:
  "decodeAs pf (ArgType a) raw = None \<Longrightarrow> fst (Set_arg pf a raw) = a"
  by (cases a) (auto split: sum.splits option.splits)

lemma Set_arg_decodable:
  "decodeAs pf (ArgType a) raw = Some d \<Longrightarrow>
   Get (fst (Set_arg pf a raw)) = d \<and> Loaded (fst (Set_arg pf a raw))"
  by (cases a) (auto simp: Let_def split: sum.splits option.splits)

lemma Set_arg_loaded_mono: "Loaded a \<Longrightarrow> Loaded (fst (Set_arg pf a raw))"
  by (cases a) (auto simp: Let_def split: sum.splits option.splits)

lemma setSlots_kind [simp]: "ArgType (foldl (setSlot pf) a raws) = ArgType a"
  by (induction raws arbitrary: a) (simp_all add: setSlot_def)

lemma setSlots_req [simp]: "Required (foldl (setSlot pf) a raws) = Required a"
  by (induction raws arbitrary: a) (simp_all add: setSlot_def)

lemma setSlots_undecodable:
  "\<forall>raw \<in> set raws. decodeAs pf (ArgType a) raw = None \<Longrightarrow> foldl (setSlot pf) a raws = a"
  by (induction raws arbitrary: a) (simp_all add: setSlot_def Set_arg_undecodable)

lemma setSlots_last_decodable:
  assumes "decodeAs pf (ArgType a) raw = Some d"
    and "\<forall>r \<in> set post. decodeAs pf (ArgType a) r = None"
  shows "Get (foldl (setSlot pf) a (pre @ raw # post)) = d \<and>
         Loaded (foldl (setSlot pf) a (pre @ raw # post))"
proof -
  let ?b = "foldl (setSlot pf) a pre"
  have k: "ArgType ?b = ArgType a" by simp
  let ?c = "setSlot pf ?b raw"
  have c: "Get ?c = d \<and> Loaded ?c"
    using Set_arg_decodable [of pf ?b raw d] assms(1) k by (simp add: setSlot_def)
  have kc: "ArgType ?c = ArgType a" by (simp add: setSlot_def)
  have "foldl (setSlot pf) ?c post = ?c"
    using setSlots_undecodable [of post pf ?c] assms(2) kc by simp
  then show ?thesis using c by simp
qed

subsection \<open>The loops over the pairs and over the registry\<close>

lemma SetVar_registered:
  "map_of (vars cp) name = Some a \<Longrightarrow>
   SetVar pf cp name val =
     Inr (cp\<lparr>vars := AList.update name (setSlot pf a val) (vars cp)\<rparr>, snd (Set_arg pf a val))"
  by (simp add: SetVar_def setSlot_def)

lemma setVars_total: "\<exists>cp' out'. setVars pf cp fvs out = Inr (cp', out')"
proof (induction fvs arbitrary: cp out)
  case Nil
  then show ?case by simp
next
  case (Cons fv fvs)
  show ?case
  proof (cases "map_of (vars cp) (fv_flag fv)")
    case None
    then show ?thesis using Cons.IH by simp
  next
    case (Some a)
    then show ?thesis using Cons.IH by (simp add: SetVar_registered)
  qed
qed

lemma setVars_slot:
  "setVars pf cp fvs out = Inr (cp', out') \<Longrightarrow>
   map_of (vars cp') name =
     map_option (\<lambda>a. foldl (setSlot pf) a (valuesFor name fvs)) (map_of (vars cp) name)"
proof (induction fvs arbitrary: cp out)
  case Nil
  then show ?case by (simp add: valuesFor_def option.map_ident)
next
  case (Cons fv fvs)
  show ?case
  proof (cases "map_of (vars cp) (fv_flag fv)")
    case None
    then have "setVars pf cp fvs out = Inr (cp', out')" using Cons.prems by simp
    from Cons.IH [OF this] None show ?thesis
      by (cases "fv_flag fv = name") (auto simp: valuesFor_def)
  next
    case (Some a)
    let ?cp1 = "cp\<lparr>vars := AList.update (fv_flag fv) (setSlot pf a (fv_value fv)) (vars cp)\<rparr>"
    have "setVars pf ?cp1 fvs (out @ snd (Set_arg pf a (fv_value fv))) = Inr (cp', out')"
      using Cons.prems Some by (simp add: SetVar_registered)
    from Cons.IH [OF this] Some show ?thesis
      by (cases "fv_flag fv = name") (auto simp: valuesFor_def update_conv')
  qed
qed

lemma setVars_out_prefix:
  "setVars pf cp fvs out = Inr (cp', out') \<Longrightarrow>
   setVars pf cp fvs (pre @ out) = Inr (cp', pre @ out')"
proof (induction fvs arbitrary: cp out)
  case Nil
  then show ?case by simp
next
  case (Cons fv fvs)
  show ?case
  proof (cases "map_of (vars cp) (fv_flag fv)")
    case None
    then show ?thesis using Cons by simp
  next
    case (Some a)
    then show ?thesis using Cons.prems Cons.IH by (simp add: SetVar_registered)
  qed
qed

lemma setVars_skip_undeclared:
  "(\<And>n. P n \<longleftrightarrow> map_of (vars cp) n \<noteq> None) \<Longrightarrow>
   setVars pf cp (filter (\<lambda>fv. P (fv_flag fv)) fvs) out = setVars pf cp fvs out"
proof (induction fvs arbitrary: cp out)
  case Nil
  then show ?case by simp
next
  case (Cons fv fvs)
  show ?case
  proof (cases "map_of (vars cp) (fv_flag fv)")
    case None
    then have "\<not> P (fv_flag fv)" using Cons.prems by simp
    then show ?thesis using None Cons.IH [OF Cons.prems] by simp
  next
    case (Some a)
    let ?cp1 = "cp\<lparr>vars := AList.update (fv_flag fv) (setSlot pf a (fv_value fv)) (vars cp)\<rparr>"
    have p: "P (fv_flag fv)" using Some Cons.prems by simp
    have same: "\<And>n. P n \<longleftrightarrow> map_of (vars ?cp1) n \<noteq> None"
      using Some Cons.prems by (auto simp: update_conv')
    show ?thesis
      using Some p Cons.IH [of ?cp1, OF same] by (simp add: SetVar_registered)
  qed
qed

lemma undeclared_eq:
  "undeclared cp fvs acc =
   acc @ map (\<lambda>fv. ''-'' @ fv_flag fv) (filter (\<lambda>fv. \<not> IsFlag cp (fv_flag fv)) fvs)"
  by (induction fvs arbitrary: acc) (auto simp: IsFlag_def split: option.splits)

lemma missing_eq:
  "missing cp names acc =
   acc @ map (\<lambda>n. ''-'' @ n) (filter (\<lambda>n. IsRequired cp n \<and> \<not> IsLoaded cp n) names)"
  by (induction names arbitrary: acc)
     (auto simp: IsRequired_def IsLoaded_def IsFlag_def split: option.splits)

lemma IsFlag_keys: "IsFlag cp name \<longleftrightarrow> name \<in> set (remdups (map fst (vars cp)))"
  by (auto simp: IsFlag_def map_of_eq_None_iff split: option.splits)
     (metis map_of_eq_None_iff option.distinct(1))

lemma Set_arg_printed:
  "set (snd (Set_arg pf a raw)) \<subseteq>
     {Println ''Error setting integer flag variable'',
      Println ''Error seting integer flag variable'',
      Println ''Error setting float in cmdline''}"
  by (cases a) (auto simp: Let_def split: sum.splits option.splits)

lemma setVars_printed:
  "setVars pf cp fvs out = Inr (cp', out') \<Longrightarrow>
   \<exists>printed. out' = out @ printed \<and>
     set printed \<subseteq>
       {Println ''Error setting integer flag variable'',
        Println ''Error seting integer flag variable'',
        Println ''Error setting float in cmdline''}"
proof (induction fvs arbitrary: cp out)
  case Nil
  then show ?case by simp
next
  case (Cons fv fvs)
  show ?case
  proof (cases "map_of (vars cp) (fv_flag fv)")
    case None
    then show ?thesis using Cons by simp
  next
    case (Some a)
    let ?cp1 = "cp\<lparr>vars := AList.update (fv_flag fv) (setSlot pf a (fv_value fv)) (vars cp)\<rparr>"
    let ?p1 = "snd (Set_arg pf a (fv_value fv))"
    have "setVars pf ?cp1 fvs (out @ ?p1) = Inr (cp', out')"
      using Cons.prems Some by (simp add: SetVar_registered)
    from Cons.IH [OF this] obtain printed where p:
        "out' = (out @ ?p1) @ printed"
        "set printed \<subseteq>
           {Println ''Error setting integer flag variable'',
            Println ''Error seting integer flag variable'',
            Println ''Error setting float in cmdline''}"
      by blast
    have "out' = out @ (?p1 @ printed)" using p(1) by simp
    moreover have "set (?p1 @ printed) \<subseteq>
           {Println ''Error setting integer flag variable'',
            Println ''Error seting integer flag variable'',
            Println ''Error setting float in cmdline''}"
      using p(2) Set_arg_printed [of pf a "fv_value fv"] by simp
    ultimately show ?thesis by blast
  qed
qed

lemma setSlots_loaded:
  "raw \<in> set raws \<Longrightarrow> decodeAs pf (ArgType a) raw = Some d \<Longrightarrow>
   Loaded (foldl (setSlot pf) a raws)"
proof -
  assume r: "raw \<in> set raws" and d: "decodeAs pf (ArgType a) raw = Some d"
  have mono: "Loaded b \<Longrightarrow> Loaded (foldl (setSlot pf) b xs)" for b xs
    by (induction xs arbitrary: b) (simp_all add: setSlot_def Set_arg_loaded_mono)
  from r obtain pre post where s: "raws = pre @ raw # post"
    by (auto simp: in_set_conv_decomp)
  let ?b = "foldl (setSlot pf) a pre"
  have "Loaded (setSlot pf ?b raw)"
    using Set_arg_decodable [of pf ?b raw d] d by (simp add: setSlot_def)
  then show ?thesis using s mono by simp
qed

lemma IsLoaded_slot:
  "IsLoaded cp n = (case map_of (vars cp) n of Some a \<Rightarrow> Loaded a | None \<Rightarrow> False)"
  by (simp add: IsLoaded_def IsFlag_def split: option.splits)

lemma IsRequired_slot:
  "IsRequired cp n = (case map_of (vars cp) n of Some a \<Rightarrow> Required a | None \<Rightarrow> False)"
  by (simp add: IsRequired_def IsFlag_def split: option.splits)

lemma IsFlag_slot: "IsFlag cp n = (map_of (vars cp) n \<noteq> None)"
  by (simp add: IsFlag_def split: option.splits)

lemma missing_nonempty:
  "(filter (\<lambda>n. IsRequired cp n \<and> \<not> IsLoaded cp n) (remdups (map fst (vars cp))) \<noteq> []) =
   (\<exists>n. IsRequired cp n \<and> \<not> IsLoaded cp n)"
proof -
  have "IsRequired cp n \<Longrightarrow> n \<in> set (remdups (map fst (vars cp)))" for n
    using IsFlag_keys [of cp n] by (simp add: IsRequired_def split: if_splits)
  then show ?thesis by (auto simp: filter_empty_conv)
qed

lemma dash_fun: "(@) [CHR 0x2D] = (#) (CHR 0x2D)"
  by (rule ext) simp

lemma ParseFromString_scanned:
  assumes "scanPieces (Fields s) 0 [] = Inr cmdVar"
    and "setVars pf cp cmdVar [] = Inr (cp', printed)"
  shows "ParseFromString pf cp s =
     Inr (\<not> (\<exists>n. IsRequired cp' n \<and> \<not> IsLoaded cp' n), cp',
          (if filter (\<lambda>fv. \<not> IsFlag cp (fv_flag fv)) cmdVar = [] then []
           else [Println (''Flags not declared in CmdParser: '' @
                   Join (map (\<lambda>fv. ''-'' @ fv_flag fv)
                           (filter (\<lambda>fv. \<not> IsFlag cp (fv_flag fv)) cmdVar)) '','' @
                   '', ignored'')]) @
          printed @
          (if \<exists>n. IsRequired cp' n \<and> \<not> IsLoaded cp' n
           then [Println (Sprint2 ''Flags required but missing: %s''
                   (Join (map (\<lambda>n. ''-'' @ n)
                            (filter (\<lambda>n. IsRequired cp' n \<and> \<not> IsLoaded cp' n)
                               (remdups (map fst (vars cp'))))) '',''))]
           else []))"
proof -
  let ?und = "filter (\<lambda>fv. \<not> IsFlag cp (fv_flag fv)) cmdVar"
  let ?o1 = "if 0 < length (undeclared cp cmdVar [])
             then [Println (''Flags not declared in CmdParser: '' @
                     Join (undeclared cp cmdVar []) '','' @ '', ignored'')]
             else []"
  have sv: "setVars pf cp cmdVar ?o1 = Inr (cp', ?o1 @ printed)"
    using setVars_out_prefix [OF assms(2), of ?o1] by simp
  have m: "(0 < length (missing cp' (remdups (map fst (vars cp'))) [])) =
           (\<exists>n. IsRequired cp' n \<and> \<not> IsLoaded cp' n)"
    using missing_nonempty [of cp'] by (simp add: missing_eq)
  show ?thesis
    unfolding ParseFromString_def assms(1) sum.case Let_def sv prod.case m
    by (simp add: undeclared_eq missing_eq dash_fun)
qed

lemma valuesFor_split:
  "valuesFor n (before @ fv # after) =
   valuesFor n before @ (if fv_flag fv = n then [fv_value fv] else []) @ valuesFor n after"
  by (simp add: valuesFor_def)

lemma valuesFor_member:
  "fv \<in> set fvs \<Longrightarrow> fv_value fv \<in> set (valuesFor (fv_flag fv) fvs)"
  by (auto simp: valuesFor_def)

lemma AddFlag_slot:
  "zeroValue kind = Some z \<Longrightarrow>
   \<exists>a. map_of (vars (AddFlag cp kind name req)) name = Some a \<and> ArgType a = kind \<and>
       \<not> Loaded a \<and> Get a = z \<and> Required a = req \<and> Name a = name"
  by (cases kind)
     (auto simp: update_conv' createIntVar_def createInt64Var_def createFloatVar_def
        createStringVar_def createBoolVar_def)

lemma not_declared_line:
  "l \<in> {Println ''Error setting integer flag variable'',
         Println ''Error seting integer flag variable'',
         Println ''Error setting float in cmdline''} \<Longrightarrow>
   \<not> HasPrefix l ''Flags not declared''"
  by (auto simp: HasPrefix_def Println_def)

lemma not_declared_missing:
  "\<not> HasPrefix (Println (Sprint2 ''Flags required but missing: %s'' x)) ''Flags not declared''"
  by (simp add: HasPrefix_def Println_def Sprint2_def)

subsection \<open>The comment loop\<close>

lemma string_of_byte_nonempty: "string_of_byte b \<noteq> []"
  by (simp add: string_of_byte_def)

lemma string_of_byte_single: "of_char c < (128 :: nat) \<Longrightarrow> (string_of_byte b = [c]) = (b = c)"
  by (auto simp: string_of_byte_def)

lemma string_of_byte_tab: "(string_of_byte b = [CHR 0x09]) = (b = CHR 0x09)"
  by (rule string_of_byte_single) simp

lemma string_of_byte_hash: "(string_of_byte b = ''#'') = (b = CHR ''#'')"
  by (rule string_of_byte_single) simp

lemma stripComment_tab:
  "idx < length l \<Longrightarrow> l ! idx = CHR 0x09 \<Longrightarrow>
   stripComment l w idx = stripComment l (w + 1) (idx + 1)"
  by (subst stripComment.simps) (simp add: string_of_byte_tab)

lemma stripComment_hash:
  "idx < length l \<Longrightarrow> l ! idx = CHR ''#'' \<Longrightarrow>
   stripComment l w idx = (if w = idx then [] else take (idx - w) (drop w l))"
  by (subst stripComment.simps) (simp add: string_of_byte_tab string_of_byte_hash string_of_byte_nonempty)

lemma stripComment_other:
  "idx < length l \<Longrightarrow> l ! idx \<noteq> CHR 0x09 \<Longrightarrow> l ! idx \<noteq> CHR ''#'' \<Longrightarrow>
   stripComment l w idx = stripComment l w (idx + 1)"
  by (subst stripComment.simps) (simp add: string_of_byte_tab string_of_byte_hash string_of_byte_nonempty)

lemma stripComment_no_hash:
  "CHR ''#'' \<notin> set (drop idx l) \<Longrightarrow> stripComment l w idx = l"
proof (induction l w idx rule: stripComment.induct)
  case (1 nxt_line whitespace idx)
  show ?case
  proof (cases "idx < length nxt_line")
    case False
    then show ?thesis by (subst stripComment.simps) simp
  next
    case True
    then have d: "drop idx nxt_line = nxt_line ! idx # drop (idx + 1) nxt_line"
      by (simp add: Cons_nth_drop_Suc)
    with "1.prems" have nh: "nxt_line ! idx \<noteq> CHR ''#''" "CHR ''#'' \<notin> set (drop (idx + 1) nxt_line)"
      by auto
    show ?thesis
    proof (cases "nxt_line ! idx = CHR 0x09")
      case tab: True
      have "stripComment nxt_line (whitespace + 1) (idx + 1) = nxt_line"
        using "1.IH"(1) [OF True _ nh(2)] tab by (simp add: string_of_byte_tab)
      then show ?thesis by (simp add: stripComment_tab [OF True tab])
    next
      case other: False
      have "stripComment nxt_line whitespace (idx + 1) = nxt_line"
        using "1.IH"(2) [OF True _ _ nh(2)] other nh(1)
        by (simp add: string_of_byte_tab string_of_byte_hash string_of_byte_nonempty)
      then show ?thesis by (simp add: stripComment_other [OF True other nh(1)])
    qed
  qed
qed

text \<open>
  What the loop computes for a line whose first \<^verbatim>\<open>#\<close> from \<open>idx\<close> on is at position
  \<open>length seen + length todo\<close>: \<open>whitespace\<close> has been raised once for every tab.
\<close>

lemma stripComment_first_hash:
  "CHR ''#'' \<notin> set todo \<Longrightarrow>
   stripComment (seen @ todo @ CHR ''#'' # rest) w (length seen) =
     (if w + length (filter (\<lambda>c. c = CHR 0x09) todo) = length seen + length todo then []
      else take (length seen + length todo - (w + length (filter (\<lambda>c. c = CHR 0x09) todo)))
             (drop (w + length (filter (\<lambda>c. c = CHR 0x09) todo))
                (seen @ todo @ CHR ''#'' # rest)))"
proof (induction todo arbitrary: seen w)
  case Nil
  have "stripComment (seen @ CHR ''#'' # rest) w (length seen) =
        (if w = length seen then [] else take (length seen - w) (drop w (seen @ CHR ''#'' # rest)))"
    by (rule stripComment_hash) simp_all
  then show ?case by simp
next
  case (Cons c todo)
  let ?l = "seen @ (c # todo) @ CHR ''#'' # rest"
  have l: "?l = (seen @ [c]) @ todo @ CHR ''#'' # rest" by simp
  have inb: "length seen < length ?l" by simp
  have at: "?l ! length seen = c" by (simp add: nth_append)
  have nh: "c \<noteq> CHR ''#''" "CHR ''#'' \<notin> set todo" using Cons.prems by auto
  show ?case
  proof (cases "c = CHR 0x09")
    case True
    have "stripComment ?l w (length seen) = stripComment ?l (w + 1) (length (seen @ [c]))"
      using stripComment_tab [OF inb, of w] at True by simp
    also have "\<dots> = stripComment ((seen @ [c]) @ todo @ CHR ''#'' # rest) (w + 1) (length (seen @ [c]))"
      by simp
    finally show ?thesis
      unfolding Cons.IH [OF nh(2), of "seen @ [c]" "w + 1"] using True by simp
  next
    case False
    have "stripComment ?l w (length seen) = stripComment ?l w (length (seen @ [c]))"
      using stripComment_other [OF inb, of w] at False nh(1) by simp
    also have "\<dots> = stripComment ((seen @ [c]) @ todo @ CHR ''#'' # rest) w (length (seen @ [c]))"
      by simp
    finally show ?thesis
      unfolding Cons.IH [OF nh(2), of "seen @ [c]" w] using False by simp
  qed
qed

lemma Replace_absent: "c \<notin> set s \<Longrightarrow> Replace s [c] new n = s"
proof (induction s)
  case Nil
  then show ?case by (subst Replace.simps) simp
next
  case (Cons a s)
  then show ?case by (subst Replace.simps) (auto simp: HasPrefix_def)
qed

subsection \<open>The decoder of integers and the parser return\<close>

lemma ParseInt_examples:
  "ParseInt ''42'' = Inr 42"
  "ParseInt ''-7'' = Inr (- 7)"
  "ParseInt ''+7'' = Inr 7"
  "ParseInt '''' = Inl ErrSyntax"
  "ParseInt ''-'' = Inl ErrSyntax"
  "ParseInt ''4x'' = Inl ErrSyntax"
  "ParseInt ''true'' = Inl ErrSyntax"
  "ParseInt ''9223372036854775807'' = Inr 9223372036854775807"
  "ParseInt ''9223372036854775808'' = Inl ErrRange"
  "ParseInt ''-9223372036854775808'' = Inr (- 9223372036854775808)"
  "ParseInt ''-9223372036854775809'' = Inl ErrRange"
  by (simp_all add: ParseInt_def ParseUint_def isDigit_def)

lemma ParseFromString_returns: "\<exists>ok cp' out. ParseFromString pf cp s = Inr (ok, cp', out)"
proof (cases "scanPieces (Fields s) 0 []")
  case (Inl rest)
  then show ?thesis by (auto simp: ParseFromString_def)
next
  case (Inr cmdVar)
  obtain cp' printed where "setVars pf cp cmdVar [] = Inr (cp', printed)"
    using setVars_total by blast
  from ParseFromString_scanned [OF Inr this] show ?thesis by blast
qed

subsection \<open>Calls that leave a slot as it is\<close>

lemma AddFlag_other:
  "n \<noteq> name \<Longrightarrow> map_of (vars (AddFlag cp k n req)) name = map_of (vars cp) name"
  by (cases k) (simp_all add: update_conv')

lemma SetVar_other:
  "SetVar pf cp n raw = Inr (cp', out) \<Longrightarrow> n \<noteq> name \<Longrightarrow>
   map_of (vars cp') name = map_of (vars cp) name"
  by (auto simp: SetVar_def update_conv' split: option.splits)

lemma SetVar_undecodable:
  "SetVar pf cp name raw = Inr (cp', out) \<Longrightarrow> map_of (vars cp) name = Some a \<Longrightarrow>
   decodeAs pf (ArgType a) raw = None \<Longrightarrow> map_of (vars cp') name = Some a"
  by (auto simp: SetVar_def update_conv' Set_arg_undecodable split: option.splits)

lemma SetVar_decodable:
  "SetVar pf cp name raw = Inr (cp', out) \<Longrightarrow> map_of (vars cp) name = Some a \<Longrightarrow>
   decodeAs pf (ArgType a) raw = Some d \<Longrightarrow>
   \<exists>b. map_of (vars cp') name = Some b \<and> Get b = d \<and> Loaded b"
  using Set_arg_decodable [of pf a raw d]
  by (auto simp: SetVar_def update_conv' split: option.splits)

lemma ParseFromString_no_value:
  assumes "noValueIn pf (ArgType a) name s"
    and "map_of (vars cp) name = Some a"
    and "ParseFromString pf cp s = Inr (ok, cp', out)"
  shows "map_of (vars cp') name = Some a"
proof (cases "scanPieces (Fields s) 0 []")
  case (Inl rest)
  then have "cp' = cp" using assms(3) by (simp add: ParseFromString_def)
  then show ?thesis using assms(2) by simp
next
  case (Inr cmdVar)
  obtain cp1 printed where sv: "setVars pf cp cmdVar [] = Inr (cp1, printed)"
    using setVars_total by blast
  have c: "cp' = cp1"
    using ParseFromString_scanned [OF Inr sv] assms(3) by simp
  have "\<forall>raw \<in> set (valuesFor name cmdVar). decodeAs pf (ArgType a) raw = None"
    using assms(1) Inr by (simp add: noValueIn_def list_all_iff)
  then have "foldl (setSlot pf) a (valuesFor name cmdVar) = a"
    by (rule setSlots_undecodable)
  then show ?thesis
    using setVars_slot [OF sv, of name] assms(2) c by simp
qed

lemma step_no_value:
  assumes "givesNoValue pf (ArgType a) name c"
    and "map_of (vars cp) name = Some a"
    and "step pf cp c = Inr cp'"
  shows "map_of (vars cp') name = Some a"
proof (cases c)
  case (CallAddFlag k n req)
  then show ?thesis using assms by (auto simp: AddFlag_other)
next
  case (CallSetVar n raw)
  then obtain out where s: "SetVar pf cp n raw = Inr (cp', out)"
    using assms(3) by (auto split: sum.splits)
  show ?thesis
  proof (cases "n = name")
    case True
    then show ?thesis
      using SetVar_undecodable [of pf cp name raw cp' out a] s assms(1,2) CallSetVar by simp
  next
    case False
    then show ?thesis using SetVar_other [OF s False] assms(2) by simp
  qed
next
  case (CallParseFromString s)
  then obtain ok out where "ParseFromString pf cp s = Inr (ok, cp', out)"
    using assms(3) by (cases "ParseFromString pf cp s") auto
  then show ?thesis
    using ParseFromString_no_value [of pf a name s cp ok cp' out] assms(1,2) CallParseFromString
    by simp
next
  case (CallParseFromFile fs filename)
  show ?thesis
  proof (cases "fs filename")
    case None
    then show ?thesis
      using assms(2,3) CallParseFromFile by (simp add: ParseFromFile_def)
  next
    case (Some content)
    let ?s = "collectLines (scanLinesFrom content []) ''''"
    obtain ok out where "ParseFromString pf cp ?s = Inr (ok, cp', out)"
      using assms(3) CallParseFromFile Some
      by (cases "ParseFromString pf cp ?s") (auto simp: ParseFromFile_def)
    then show ?thesis
      using ParseFromString_no_value [of pf a name ?s cp ok cp' out] assms(1,2)
        CallParseFromFile Some
      by simp
  qed
next
  case (CallParseFromCmdLine args)
  let ?s = "Join (drop 1 args) '' ''"
  obtain ok out where "ParseFromString pf cp ?s = Inr (ok, cp', out)"
    using assms(3) CallParseFromCmdLine
    by (cases "ParseFromString pf cp ?s") (auto simp: ParseFromCmdLine_def split: if_splits)
  then show ?thesis
    using ParseFromString_no_value [of pf a name ?s cp ok cp' out] assms(1,2)
      CallParseFromCmdLine
    by simp
next
  case (CallParse fs args)
  show ?thesis
  proof (cases "1 < length args \<and> args ! 1 = ''-is''")
    case isfile: True
    show ?thesis
    proof (cases "2 < length args")
      case False
      then show ?thesis
        using assms(3) CallParse isfile by (simp add: Parse_def split: if_splits)
    next
      case True
      have p: "step pf cp (CallParseFromFile fs (args ! 2)) = Inr cp'"
        using assms(3) CallParse isfile True
        by (cases "ParseFromFile pf fs cp (args ! 2)")
           (auto simp: Parse_def split: if_splits)
      have g: "givesNoValue pf (ArgType a) name (CallParseFromFile fs (args ! 2))"
        using assms(1) CallParse isfile True by simp
      show ?thesis
      proof (cases "fs (args ! 2)")
        case None
        then show ?thesis
          using assms(2) p by (simp add: ParseFromFile_def)
      next
        case (Some content)
        let ?s = "collectLines (scanLinesFrom content []) ''''"
        obtain ok out where "ParseFromString pf cp ?s = Inr (ok, cp', out)"
          using p Some by (cases "ParseFromString pf cp ?s") (auto simp: ParseFromFile_def)
        then show ?thesis
          using ParseFromString_no_value [of pf a name ?s cp ok cp' out] assms(2) g Some
          by simp
      qed
    qed
  next
    case cmd: False
    let ?s = "Join (drop 1 args) '' ''"
    obtain ok out where "ParseFromString pf cp ?s = Inr (ok, cp', out)"
      using assms(3) CallParse cmd
      by (cases "ParseFromString pf cp ?s")
         (auto simp: Parse_def ParseFromCmdLine_def split: if_splits)
    moreover have "noValueIn pf (ArgType a) name ?s"
      using assms(1) CallParse cmd by auto
    ultimately show ?thesis
      using ParseFromString_no_value [of pf a name ?s cp ok cp' out] assms(2) by blast
  qed
qed

lemma run_no_value:
  "\<forall>c \<in> set calls. givesNoValue pf (ArgType a) name c \<Longrightarrow>
   map_of (vars cp) name = Some a \<Longrightarrow> run pf cp calls = Inr cp' \<Longrightarrow>
   map_of (vars cp') name = Some a"
proof (induction calls arbitrary: cp)
  case Nil
  then show ?case by simp
next
  case (Cons c calls)
  from Cons.prems(3) obtain cp1 where s: "step pf cp c = Inr cp1" and r: "run pf cp1 calls = Inr cp'"
    by (auto split: sum.splits)
  have "map_of (vars cp1) name = Some a"
    using step_no_value [OF _ Cons.prems(2) s] Cons.prems(1) by simp
  then show ?case
    using Cons.IH [OF _ _ r] Cons.prems(1) by simp
qed

subsection \<open>Evaluating the decoder of floats\<close>

lemmas float_eval = ParseFloat_def special_def readFloat_def roundFloat64_def bitLen.simps
  underscoreOK_def lowerCode_def isHexLetter_def isDigit_def posInf_def negInf_def NaN_def
  decodeFloat_def Let_def

lemma ParseFloat_examples:
  "ParseFloat ''1.5'' = Inr 0x3FF8000000000000"
  "ParseFloat ''0x1p-2'' = Inr 0x3FD0000000000000"
  "ParseFloat ''Inf'' = Inr 0x7FF0000000000000"
  "ParseFloat ''-infinity'' = Inr 0xFFF0000000000000"
  "ParseFloat ''NaN'' = Inr 0x7FF8000000000001"
  "ParseFloat ''-0'' = Inr 0x8000000000000000"
  "ParseFloat ''0.1'' = Inr 0x3FB999999999999A"
  "ParseFloat ''1_000.5'' = Inr 0x408F440000000000"
  "ParseFloat ''4x'' = Inl ErrSyntax"
  "ParseFloat '''' = Inl ErrSyntax"
  "ParseFloat ''true'' = Inl ErrSyntax"
  "ParseFloat ''0x1'' = Inl ErrSyntax"
  by (simp_all add: float_eval)

lemma base10Float_examples:
  "base10Float ''1.5''"
  "base10Float ''-2e10''"
  "base10Float ''.5E-3''"
  "\<not> base10Float ''4x''"
  "\<not> base10Float ''''"
  "\<not> base10Float ''NaN''"
  by (simp_all add: base10Float_def isDigit_def)

section \<open>Typed value slots: what \<^verbatim>\<open>Set\<close> stores\<close>

text \<open>
  C3, as the code has it. \<^verbatim>\<open>boolVar.Set\<close> compares the raw string with the four literals
  \<^verbatim>\<open>"T"\<close>, \<^verbatim>\<open>"t"\<close>, \<^verbatim>\<open>"True"\<close> and \<^verbatim>\<open>"true"\<close> by equality: it stores \<open>True\<close> exactly
  when the raw string is one of them and \<open>False\<close> for every other string, the empty
  one included; in every case the slot is loaded afterwards, its kind, name and
  required flag are unchanged, and nothing is printed.
\<close>

theorem boolVar_Set_exact:
  "Get (fst (Set_arg pf (BoolVar vs) raw)) =
     AnyBool (raw = ''T'' \<or> raw = ''t'' \<or> raw = ''True'' \<or> raw = ''true'') \<and>
   Loaded (fst (Set_arg pf (BoolVar vs) raw)) \<and>
   ArgType (fst (Set_arg pf (BoolVar vs) raw)) = BoolFlag \<and>
   Name (fst (Set_arg pf (BoolVar vs) raw)) = v_name vs \<and>
   Required (fst (Set_arg pf (BoolVar vs) raw)) = v_req vs \<and>
   snd (Set_arg pf (BoolVar vs) raw) = []"
  by (simp add: Let_def)

theorem boolVar_Set_exact_witness:
  "Get (fst (Set_arg (\<lambda>s. None)
       (BoolVar \<lparr>v_name = ''verbose'', v_value = False, v_req = False, v_loaded = False\<rparr>)
       ''True'')) = (AnyBool True :: real any) \<and>
   Get (fst (Set_arg (\<lambda>s. None)
       (BoolVar \<lparr>v_name = ''verbose'', v_value = True, v_req = False, v_loaded = False\<rparr>)
       '''')) = (AnyBool False :: real any) \<and>
   Loaded (fst (Set_arg (\<lambda>s. None :: real option)
       (BoolVar \<lparr>v_name = ''verbose'', v_value = True, v_req = False, v_loaded = False\<rparr>)
       ''''))"
  using
    boolVar_Set_exact [of "\<lambda>s. None :: real option"
      "\<lparr>v_name = ''verbose'', v_value = False, v_req = False, v_loaded = False\<rparr>" "''True''"]
    boolVar_Set_exact [of "\<lambda>s. None :: real option"
      "\<lparr>v_name = ''verbose'', v_value = True, v_req = False, v_loaded = False\<rparr>" "''''"]
  by simp

text \<open>
  C3 as stated says the match is case-insensitive, so that \<^verbatim>\<open>"TRUE"\<close> yields true.
  The code stores \<open>False\<close> for \<^verbatim>\<open>"TRUE"\<close>.
\<close>

theorem boolVar_Set_upper_counterexample:
  "Get (fst (Set_arg (\<lambda>s. None)
       (BoolVar \<lparr>v_name = ''verbose'', v_value = False, v_req = False, v_loaded = False\<rparr>)
       ''TRUE'')) = (AnyBool False :: real any)"
  by (simp add: Let_def)




section \<open>The token parser: scanning\<close>

text \<open>
  C1. A token that does not begin with \<^verbatim>\<open>-\<close> stands where a flag token is expected when
  it is the first token or the token before it does not begin with \<^verbatim>\<open>-\<close> either (it is
  then not the value of the flag token before it). For every input with such a token,
  \<^verbatim>\<open>ParseFromString\<close> returns false, prints one line that reports the tokens from the
  first such token on, and returns the registry it was given: no slot is set.
\<close>

theorem bare_token_rejected:
  assumes "offending (Fields s) i"
  shows "\<exists>j\<le>i. offending (Fields s) j \<and> (\<forall>k<j. \<not> offending (Fields s) k) \<and>
           ParseFromString pf cp s =
             Inr (False, cp,
                  [''formatting problem in command line from '' @
                   Join (drop j (Fields s)) '' '' @ [CHR 0x0A]])"
proof -
  let ?ps = "Fields s"
  from assms have a: "0 \<le> i" "i < length ?ps" "\<not> HasPrefix (?ps ! i) ''-''"
      "i = 0 \<or> \<not> HasPrefix (?ps ! (i - 1)) ''-''"
    by (auto simp: offending_def)
  from scan_bad [OF a, of "[]"] obtain j where j:
      "j \<le> i" "\<not> HasPrefix (?ps ! j) ''-''"
      "j = 0 \<or> \<not> HasPrefix (?ps ! (j - 1)) ''-''"
      "\<forall>k. 0 \<le> k \<and> k < j \<and> \<not> HasPrefix (?ps ! k) ''-'' \<longrightarrow>
           0 < k \<and> HasPrefix (?ps ! (k - 1)) ''-''"
      "scanPieces ?ps 0 [] = Inl (drop j ?ps)"
    by blast
  have off: "offending ?ps j"
    using j(1,2,3) a(2) by (auto simp: offending_def)
  have first: "\<forall>k<j. \<not> offending ?ps k"
    using j(4) by (auto simp: offending_def)
  have res: "ParseFromString pf cp s =
      Inr (False, cp,
           [''formatting problem in command line from '' @ Join (drop j ?ps) '' '' @ [CHR 0x0A]])"
    by (simp add: ParseFromString_def j(5))
  from j(1) off first res show ?thesis by blast
qed

theorem bare_token_rejected_witness:
  "offending (Fields ''foo -n 5'') 0 \<and>
   ParseFromString (\<lambda>s. None)
     (AddFlag (NewCmdParser :: real CmdParser) IntFlag ''n'' True) ''foo -n 5'' =
     Inr (False, AddFlag (NewCmdParser :: real CmdParser) IntFlag ''n'' True,
          [''formatting problem in command line from foo -n 5'' @ [CHR 0x0A]])"
proof -
  have f: "Fields ''foo -n 5'' = [''foo'', ''-n'', ''5'']"
    by (simp add: Fields_def asciiSpace_def)
  have o: "offending (Fields ''foo -n 5'') 0"
    by (simp add: f offending_def HasPrefix_def)
  show ?thesis
    using o bare_token_rejected [OF o, of "\<lambda>s. None"
        "AddFlag (NewCmdParser :: real CmdParser) IntFlag ''n'' True"]
    by (simp add: f)
qed

text \<open>
  C6. When no token stands where a flag token is expected without beginning with
  \<^verbatim>\<open>-\<close>, the scan yields one pair for each token that begins with \<^verbatim>\<open>-\<close>, in the order of
  the tokens. The flag name is the token less its first byte (one \<^verbatim>\<open>-\<close> is stripped, so
  \<^verbatim>\<open>--name\<close> gives \<^verbatim>\<open>-name\<close>); the value is \<^verbatim>\<open>"true"\<close> when the token is the last one or
  the next token begins with \<^verbatim>\<open>-\<close>, and the next token otherwise. A token taken as a
  value yields no pair of its own: the scan has advanced past it.
\<close>

theorem scan_pairs:
  assumes "\<forall>i<length pieces. \<not> offending pieces i"
  shows "scanPieces pieces 0 [] =
           Inr (map (pairAt pieces)
                  (filter (\<lambda>i. HasPrefix (pieces ! i) ''-'') [0..<length pieces]))"
proof -
  have "\<forall>i. 0 \<le> i \<and> i < length pieces \<and> \<not> HasPrefix (pieces ! i) ''-'' \<longrightarrow>
            0 < i \<and> HasPrefix (pieces ! (i - 1)) ''-''"
    using assms by (auto simp: offending_def)
  from scan_ok [OF this, of "[]"] show ?thesis by simp
qed

theorem scan_pairs_witness:
  "Fields ''-n 42 -v --name foo -last'' = [''-n'', ''42'', ''-v'', ''--name'', ''foo'', ''-last''] \<and>
   scanPieces [''-n'', ''42'', ''-v'', ''--name'', ''foo'', ''-last''] 0 [] =
     Inr [\<lparr>fv_flag = ''n'', fv_value = ''42''\<rparr>,
          \<lparr>fv_flag = ''v'', fv_value = ''true''\<rparr>,
          \<lparr>fv_flag = ''-name'', fv_value = ''foo''\<rparr>,
          \<lparr>fv_flag = ''last'', fv_value = ''true''\<rparr>]"
proof -
  let ?ps = "[''-n'', ''42'', ''-v'', ''--name'', ''foo'', ''-last'']"
  have f: "Fields ''-n 42 -v --name foo -last'' = ?ps"
    by (simp add: Fields_def asciiSpace_def)
  have idx: "[0..<length ?ps] = [0, 1, 2, 3, 4, 5]"
    by (simp add: upt_rec)
  have ok: "\<forall>i<length ?ps. \<not> offending ?ps i"
    by (simp add: offending_def HasPrefix_def less_Suc_eq)
  show ?thesis
    using scan_pairs [OF ok] f by (simp add: idx pairAt_def HasPrefix_def)
qed

section \<open>The token parser: applying the pairs\<close>

text \<open>
  C2. For an input the scan accepts, \<^verbatim>\<open>ParseFromString\<close> returns, and when a
  registered flag is required and not loaded after the pairs have been applied it
  returns false, and the last line it prints names exactly the required flags that
  are not loaded (each with \<^verbatim>\<open>-\<close> before it, joined by commas, after the literal text
  \<^verbatim>\<open>Flags required but missing: %s\<close>). The registry it leaves keeps what was applied:
  every registered flag of the input that has a value its kind decodes is loaded, and
  \<^verbatim>\<open>GetVar\<close> returns the decoded value of the last such pair of the flag.
\<close>

theorem required_missing_fails:
  assumes "scanPieces (Fields s) 0 [] = Inr cmdVar"
  shows "\<exists>ok cp' out. ParseFromString pf cp s = Inr (ok, cp', out) \<and>
     ((\<exists>n. IsRequired cp' n \<and> \<not> IsLoaded cp' n) \<longrightarrow>
        \<not> ok \<and>
        (\<exists>errMsg. set errMsg = {''-'' @ n | n. IsRequired cp' n \<and> \<not> IsLoaded cp' n} \<and>
           out \<noteq> [] \<and>
           last out = Println (Sprint2 ''Flags required but missing: %s'' (Join errMsg '',''))) \<and>
        (\<forall>fv a d. fv \<in> set cmdVar \<and> map_of (vars cp) (fv_flag fv) = Some a \<and>
             decodeAs pf (ArgType a) (fv_value fv) = Some d \<longrightarrow>
             IsLoaded cp' (fv_flag fv)) \<and>
        (\<forall>before fv after a d.
             cmdVar = before @ fv # after \<and> map_of (vars cp) (fv_flag fv) = Some a \<and>
             decodeAs pf (ArgType a) (fv_value fv) = Some d \<and>
             (\<forall>fv' \<in> set after. fv_flag fv' = fv_flag fv \<longrightarrow>
                decodeAs pf (ArgType a) (fv_value fv') = None) \<longrightarrow>
             GetVar cp' (fv_flag fv) = Inr d))"
proof -
  obtain cp' printed where sv: "setVars pf cp cmdVar [] = Inr (cp', printed)"
    using setVars_total by blast
  let ?errMsg = "map (\<lambda>n. ''-'' @ n)
      (filter (\<lambda>n. IsRequired cp' n \<and> \<not> IsLoaded cp' n) (remdups (map fst (vars cp'))))"
  note res = ParseFromString_scanned [OF assms sv]
  have names: "set ?errMsg = {''-'' @ n | n. IsRequired cp' n \<and> \<not> IsLoaded cp' n}"
  proof -
    have "IsRequired cp' n \<Longrightarrow> n \<in> set (remdups (map fst (vars cp')))" for n
      using IsFlag_keys [of cp' n] by (simp add: IsRequired_def split: if_splits)
    then show ?thesis by auto
  qed
  have slot: "map_of (vars cp') n =
      map_option (\<lambda>a. foldl (setSlot pf) a (valuesFor n cmdVar)) (map_of (vars cp) n)" for n
    by (rule setVars_slot [OF sv])
  have loaded: "IsLoaded cp' (fv_flag fv)"
    if "fv \<in> set cmdVar" "map_of (vars cp) (fv_flag fv) = Some a"
       "decodeAs pf (ArgType a) (fv_value fv) = Some d" for fv a d
    using setSlots_loaded [OF valuesFor_member [OF that(1)] that(3)] that(2)
    by (simp add: IsLoaded_slot slot)
  have got: "GetVar cp' (fv_flag fv) = Inr d"
    if "cmdVar = before @ fv # after" "map_of (vars cp) (fv_flag fv) = Some a"
       "decodeAs pf (ArgType a) (fv_value fv) = Some d"
       "\<forall>fv' \<in> set after. fv_flag fv' = fv_flag fv \<longrightarrow>
          decodeAs pf (ArgType a) (fv_value fv') = None" for before fv after a d
  proof -
    have post: "\<forall>r \<in> set (valuesFor (fv_flag fv) after). decodeAs pf (ArgType a) r = None"
      using that(4) by (auto simp: valuesFor_def)
    have "Get (foldl (setSlot pf) a
             (valuesFor (fv_flag fv) before @ fv_value fv # valuesFor (fv_flag fv) after)) = d"
      using setSlots_last_decodable [OF that(3) post] by blast
    then show ?thesis
      using that(1,2) by (simp add: GetVar_def slot valuesFor_split)
  qed
  let ?ok = "\<not> (\<exists>n. IsRequired cp' n \<and> \<not> IsLoaded cp' n)"
  let ?out = "(if filter (\<lambda>fv. \<not> IsFlag cp (fv_flag fv)) cmdVar = [] then []
         else [Println (''Flags not declared in CmdParser: '' @
                 Join (map (\<lambda>fv. ''-'' @ fv_flag fv)
                         (filter (\<lambda>fv. \<not> IsFlag cp (fv_flag fv)) cmdVar)) '','' @
                 '', ignored'')]) @
        printed @
        (if \<exists>n. IsRequired cp' n \<and> \<not> IsLoaded cp' n
         then [Println (Sprint2 ''Flags required but missing: %s'' (Join ?errMsg '',''))]
         else [])"
  have res': "ParseFromString pf cp s = Inr (?ok, cp', ?out)"
    by (rule res)
  have diag: "\<exists>errMsg. set errMsg = {''-'' @ n | n. IsRequired cp' n \<and> \<not> IsLoaded cp' n} \<and>
      ?out \<noteq> [] \<and>
      last ?out = Println (Sprint2 ''Flags required but missing: %s'' (Join errMsg '',''))"
    if "\<exists>n. IsRequired cp' n \<and> \<not> IsLoaded cp' n"
    using that names by (intro exI [of _ ?errMsg]) (simp add: dash_fun)
  have body: "(\<exists>n. IsRequired cp' n \<and> \<not> IsLoaded cp' n) \<longrightarrow>
        \<not> ?ok \<and>
        (\<exists>errMsg. set errMsg = {''-'' @ n | n. IsRequired cp' n \<and> \<not> IsLoaded cp' n} \<and>
           ?out \<noteq> [] \<and>
           last ?out = Println (Sprint2 ''Flags required but missing: %s'' (Join errMsg '',''))) \<and>
        (\<forall>fv a d. fv \<in> set cmdVar \<and> map_of (vars cp) (fv_flag fv) = Some a \<and>
             decodeAs pf (ArgType a) (fv_value fv) = Some d \<longrightarrow>
             IsLoaded cp' (fv_flag fv)) \<and>
        (\<forall>before fv after a d.
             cmdVar = before @ fv # after \<and> map_of (vars cp) (fv_flag fv) = Some a \<and>
             decodeAs pf (ArgType a) (fv_value fv) = Some d \<and>
             (\<forall>fv' \<in> set after. fv_flag fv' = fv_flag fv \<longrightarrow>
                decodeAs pf (ArgType a) (fv_value fv') = None) \<longrightarrow>
             GetVar cp' (fv_flag fv) = Inr d)"
    using diag loaded got by blast
  show ?thesis
    by (rule exI [of _ ?ok], rule exI [of _ cp'], rule exI [of _ ?out]) (rule conjI [OF res' body])
qed

theorem required_missing_fails_witness:
  "scanPieces (Fields ''-s hello'') 0 [] = Inr [\<lparr>fv_flag = ''s'', fv_value = ''hello''\<rparr>] \<and>
   ParseFromString (\<lambda>s. None)
     (AddFlag (AddFlag (NewCmdParser :: real CmdParser) IntFlag ''n'' True) StringFlag ''s'' False)
     ''-s hello'' =
     Inr (False,
        \<lparr>vars = [(''n'', IntVar \<lparr>v_name = ''n'', v_value = 0, v_req = True, v_loaded = False\<rparr>),
                 (''s'', StringVar \<lparr>v_name = ''s'', v_value = ''hello'', v_req = False,
                                    v_loaded = True\<rparr>)]\<rparr>,
        [''Flags required but missing: %s-n'' @ [CHR 0x0A]]) \<and>
   IsRequired
     \<lparr>vars = [(''n'', IntVar \<lparr>v_name = ''n'', v_value = 0, v_req = True, v_loaded = False\<rparr>),
              (''s'', StringVar \<lparr>v_name = ''s'', v_value = ''hello'', v_req = False,
                                 v_loaded = True\<rparr>) :: string \<times> real arg]\<rparr> ''n'' \<and>
   \<not> IsLoaded
     \<lparr>vars = [(''n'', IntVar \<lparr>v_name = ''n'', v_value = 0, v_req = True, v_loaded = False\<rparr>),
              (''s'', StringVar \<lparr>v_name = ''s'', v_value = ''hello'', v_req = False,
                                 v_loaded = True\<rparr>) :: string \<times> real arg]\<rparr> ''n'' \<and>
   IsLoaded
     \<lparr>vars = [(''n'', IntVar \<lparr>v_name = ''n'', v_value = 0, v_req = True, v_loaded = False\<rparr>),
              (''s'', StringVar \<lparr>v_name = ''s'', v_value = ''hello'', v_req = False,
                                 v_loaded = True\<rparr>) :: string \<times> real arg]\<rparr> ''s'' \<and>
   GetVar
     \<lparr>vars = [(''n'', IntVar \<lparr>v_name = ''n'', v_value = 0, v_req = True, v_loaded = False\<rparr>),
              (''s'', StringVar \<lparr>v_name = ''s'', v_value = ''hello'', v_req = False,
                                 v_loaded = True\<rparr>) :: string \<times> real arg]\<rparr> ''s'' =
     Inr (AnyString ''hello'')"
proof -
  let ?pf = "\<lambda>s :: string. None :: real option"
  let ?cp = "AddFlag (AddFlag (NewCmdParser :: real CmdParser) IntFlag ''n'' True)
               StringFlag ''s'' False"
  let ?cp1 = "\<lparr>vars =
      [(''n'', IntVar \<lparr>v_name = ''n'', v_value = 0, v_req = True, v_loaded = False\<rparr>),
       (''s'', StringVar \<lparr>v_name = ''s'', v_value = ''hello'', v_req = False,
                          v_loaded = True\<rparr>) :: string \<times> real arg]\<rparr>"
  let ?fv = "\<lparr>fv_flag = ''s'', fv_value = ''hello''\<rparr>"
  have scan: "scanPieces (Fields ''-s hello'') 0 [] = Inr [?fv]"
    by (simp add: Fields_def asciiSpace_def scanPieces.simps HasPrefix_def Replace.simps)
  have ev: "ParseFromString ?pf ?cp ''-s hello'' =
      Inr (False, ?cp1, [''Flags required but missing: %s-n'' @ [CHR 0x0A]])"
    by (simp add: ParseFromString_def Fields_def asciiSpace_def scanPieces.simps HasPrefix_def
        Replace.simps NewCmdParser_def createIntVar_def createStringVar_def SetVar_def
        Println_def Sprint2_def)
  have m: "IsRequired ?cp1 ''n'' \<and> \<not> IsLoaded ?cp1 ''n''"
    by (simp add: IsRequired_def IsLoaded_def IsFlag_def)
  have slot: "map_of (vars ?cp) ''s'' = Some (StringVar (createStringVar ''s'' False))"
    by (simp add: NewCmdParser_def)
  have dec: "decodeAs ?pf (ArgType (StringVar (createStringVar ''s'' False) :: real arg)) ''hello'' =
      Some (AnyString ''hello'')"
    by simp
  from required_missing_fails [OF scan, of ?pf ?cp] obtain ok cp' out where
      r: "ParseFromString ?pf ?cp ''-s hello'' = Inr (ok, cp', out)" and
      i: "(\<exists>n. IsRequired cp' n \<and> \<not> IsLoaded cp' n) \<longrightarrow>
          \<not> ok \<and>
          (\<exists>errMsg. set errMsg = {''-'' @ n | n. IsRequired cp' n \<and> \<not> IsLoaded cp' n} \<and>
             out \<noteq> [] \<and>
             last out = Println (Sprint2 ''Flags required but missing: %s'' (Join errMsg '',''))) \<and>
          (\<forall>fv a d. fv \<in> set [?fv] \<and> map_of (vars ?cp) (fv_flag fv) = Some a \<and>
               decodeAs ?pf (ArgType a) (fv_value fv) = Some d \<longrightarrow>
               IsLoaded cp' (fv_flag fv)) \<and>
          (\<forall>before fv after a d.
               [?fv] = before @ fv # after \<and> map_of (vars ?cp) (fv_flag fv) = Some a \<and>
               decodeAs ?pf (ArgType a) (fv_value fv) = Some d \<and>
               (\<forall>fv' \<in> set after. fv_flag fv' = fv_flag fv \<longrightarrow>
                  decodeAs ?pf (ArgType a) (fv_value fv') = None) \<longrightarrow>
               GetVar cp' (fv_flag fv) = Inr d)"
    by blast
  from r ev have e: "cp' = ?cp1" by simp
  from i m e have
      l: "\<forall>fv a d. fv \<in> set [?fv] \<and> map_of (vars ?cp) (fv_flag fv) = Some a \<and>
               decodeAs ?pf (ArgType a) (fv_value fv) = Some d \<longrightarrow>
               IsLoaded ?cp1 (fv_flag fv)" and
      g: "\<forall>before fv after a d.
               [?fv] = before @ fv # after \<and> map_of (vars ?cp) (fv_flag fv) = Some a \<and>
               decodeAs ?pf (ArgType a) (fv_value fv) = Some d \<and>
               (\<forall>fv' \<in> set after. fv_flag fv' = fv_flag fv \<longrightarrow>
                  decodeAs ?pf (ArgType a) (fv_value fv') = None) \<longrightarrow>
               GetVar ?cp1 (fv_flag fv) = Inr d"
    by blast+
  have loaded: "IsLoaded ?cp1 ''s''"
    using l [rule_format, of ?fv "StringVar (createStringVar ''s'' False)" "AnyString ''hello''"]
      slot dec by simp
  have got: "GetVar ?cp1 ''s'' = Inr (AnyString ''hello'')"
    using g [rule_format, of "[]" ?fv "[]" "StringVar (createStringVar ''s'' False)"
        "AnyString ''hello''"] slot dec by simp
  from scan ev m loaded got show ?thesis by blast
qed

text \<open>
  C7. For an input the scan accepts in which some pair names a flag that is not
  registered: the first line \<^verbatim>\<open>ParseFromString\<close> prints lists these names, each with \<^verbatim>\<open>-\<close>
  before it, joined by commas, and no later line is such a diagnostic; the result is
  true exactly when every required flag is loaded at the end; no name is added to the
  registry; every registered slot has received \<^verbatim>\<open>Set\<close> for each of its values in the
  input, in order; and the result and the registry are those of any input that has the
  same pairs without the unregistered ones, which prints the same lines but the first.
\<close>

theorem undeclared_flags_ignored:
  assumes "scanPieces (Fields s) 0 [] = Inr cmdVar"
    and "filter (\<lambda>fv. \<not> IsFlag cp (fv_flag fv)) cmdVar \<noteq> []"
  shows "\<exists>ok cp' out.
     ParseFromString pf cp s =
       Inr (ok, cp',
            Println (''Flags not declared in CmdParser: '' @
              Join (map (\<lambda>fv. ''-'' @ fv_flag fv)
                      (filter (\<lambda>fv. \<not> IsFlag cp (fv_flag fv)) cmdVar)) '','' @
              '', ignored'') # out) \<and>
     (\<forall>l \<in> set out. \<not> HasPrefix l ''Flags not declared'') \<and>
     (ok \<longleftrightarrow> (\<forall>n. IsRequired cp' n \<longrightarrow> IsLoaded cp' n)) \<and>
     (\<forall>n. IsFlag cp' n = IsFlag cp n) \<and>
     (\<forall>n a. map_of (vars cp) n = Some a \<longrightarrow>
        map_of (vars cp') n = Some (foldl (setSlot pf) a (valuesFor n cmdVar))) \<and>
     (\<forall>s'. scanPieces (Fields s') 0 [] = Inr (filter (\<lambda>fv. IsFlag cp (fv_flag fv)) cmdVar) \<longrightarrow>
        ParseFromString pf cp s' = Inr (ok, cp', out))"
proof -
  obtain cp' printed where sv: "setVars pf cp cmdVar [] = Inr (cp', printed)"
    using setVars_total by blast
  let ?ok = "\<not> (\<exists>n. IsRequired cp' n \<and> \<not> IsLoaded cp' n)"
  let ?tail = "if \<exists>n. IsRequired cp' n \<and> \<not> IsLoaded cp' n
      then [Println (Sprint2 ''Flags required but missing: %s''
              (Join (map (\<lambda>n. ''-'' @ n)
                       (filter (\<lambda>n. IsRequired cp' n \<and> \<not> IsLoaded cp' n)
                          (remdups (map fst (vars cp'))))) '',''))]
      else []"
  let ?out = "printed @ ?tail"
  have res: "ParseFromString pf cp s =
       Inr (?ok, cp',
            Println (''Flags not declared in CmdParser: '' @
              Join (map (\<lambda>fv. ''-'' @ fv_flag fv)
                      (filter (\<lambda>fv. \<not> IsFlag cp (fv_flag fv)) cmdVar)) '','' @
              '', ignored'') # ?out)"
    using ParseFromString_scanned [OF assms(1) sv] assms(2) by simp
  have pr: "set printed \<subseteq>
       {Println ''Error setting integer flag variable'',
        Println ''Error seting integer flag variable'',
        Println ''Error setting float in cmdline''}"
    using setVars_printed [OF sv] by simp
  have single: "\<forall>l \<in> set ?out. \<not> HasPrefix l ''Flags not declared''"
    using pr not_declared_line not_declared_missing by (auto split: if_splits)
  have okk: "?ok \<longleftrightarrow> (\<forall>n. IsRequired cp' n \<longrightarrow> IsLoaded cp' n)"
    by blast
  have slot: "map_of (vars cp') n =
      map_option (\<lambda>a. foldl (setSlot pf) a (valuesFor n cmdVar)) (map_of (vars cp) n)" for n
    by (rule setVars_slot [OF sv])
  have keys: "\<forall>n. IsFlag cp' n = IsFlag cp n"
    by (simp add: IsFlag_slot slot)
  have slots: "\<forall>n a. map_of (vars cp) n = Some a \<longrightarrow>
        map_of (vars cp') n = Some (foldl (setSlot pf) a (valuesFor n cmdVar))"
    by (simp add: slot)
  have without: "ParseFromString pf cp s' = Inr (?ok, cp', ?out)"
    if s': "scanPieces (Fields s') 0 [] = Inr (filter (\<lambda>fv. IsFlag cp (fv_flag fv)) cmdVar)"
    for s'
  proof -
    have "setVars pf cp (filter (\<lambda>fv. IsFlag cp (fv_flag fv)) cmdVar) [] = Inr (cp', printed)"
      using setVars_skip_undeclared [of "IsFlag cp" cp pf cmdVar "[]"] sv
      by (simp add: IsFlag_slot)
    from ParseFromString_scanned [OF s' this] show ?thesis by simp
  qed
  show ?thesis
    apply (rule exI [of _ ?ok], rule exI [of _ cp'], rule exI [of _ ?out])
    using res single okk keys slots without by blast
qed

theorem undeclared_flags_ignored_witness:
  "scanPieces (Fields ''-x 1 -n 5'') 0 [] =
     Inr [\<lparr>fv_flag = ''x'', fv_value = ''1''\<rparr>, \<lparr>fv_flag = ''n'', fv_value = ''5''\<rparr>] \<and>
   ParseFromString (\<lambda>s. None) (AddFlag (NewCmdParser :: real CmdParser) IntFlag ''n'' True)
     ''-x 1 -n 5'' =
     Inr (True,
          \<lparr>vars = [(''n'', IntVar \<lparr>v_name = ''n'', v_value = 5, v_req = True, v_loaded = True\<rparr>)]\<rparr>,
          [''Flags not declared in CmdParser: -x, ignored'' @ [CHR 0x0A]]) \<and>
   ParseFromString (\<lambda>s. None) (AddFlag (NewCmdParser :: real CmdParser) IntFlag ''n'' True)
     ''-n 5'' =
     Inr (True,
          \<lparr>vars = [(''n'', IntVar \<lparr>v_name = ''n'', v_value = 5, v_req = True, v_loaded = True\<rparr>)]\<rparr>,
          []) \<and>
   \<not> IsFlag
     \<lparr>vars = [(''n'', IntVar \<lparr>v_name = ''n'', v_value = 5, v_req = True, v_loaded = True\<rparr>)
              :: string \<times> real arg]\<rparr> ''x''"
proof -
  let ?pf = "\<lambda>s :: string. None :: real option"
  let ?cp = "AddFlag (NewCmdParser :: real CmdParser) IntFlag ''n'' True"
  let ?cp1 = "\<lparr>vars =
      [(''n'', IntVar \<lparr>v_name = ''n'', v_value = 5, v_req = True, v_loaded = True\<rparr>)
       :: string \<times> real arg]\<rparr>"
  let ?fvs = "[\<lparr>fv_flag = ''x'', fv_value = ''1''\<rparr>, \<lparr>fv_flag = ''n'', fv_value = ''5''\<rparr>]"
  have scan: "scanPieces (Fields ''-x 1 -n 5'') 0 [] = Inr ?fvs"
    by (simp add: Fields_def asciiSpace_def scanPieces.simps HasPrefix_def Replace.simps)
  have scan': "scanPieces (Fields ''-n 5'') 0 [] =
      Inr (filter (\<lambda>fv. IsFlag ?cp (fv_flag fv)) ?fvs)"
    by (simp add: Fields_def asciiSpace_def scanPieces.simps HasPrefix_def Replace.simps
        IsFlag_def NewCmdParser_def)
  have un: "filter (\<lambda>fv. \<not> IsFlag ?cp (fv_flag fv)) ?fvs \<noteq> []"
    by (simp add: IsFlag_def NewCmdParser_def)
  have ev: "ParseFromString ?pf ?cp ''-x 1 -n 5'' =
      Inr (True, ?cp1, [''Flags not declared in CmdParser: -x, ignored'' @ [CHR 0x0A]])"
    by (simp add: ParseFromString_def Fields_def asciiSpace_def scanPieces.simps HasPrefix_def
        Replace.simps NewCmdParser_def createIntVar_def SetVar_def ParseInt_def ParseUint_def
        isDigit_def Println_def Sprint2_def)
  from undeclared_flags_ignored [OF scan un, of ?pf] obtain ok cp' out where
      r: "ParseFromString ?pf ?cp ''-x 1 -n 5'' =
            Inr (ok, cp',
                 Println (''Flags not declared in CmdParser: '' @
                   Join (map (\<lambda>fv. ''-'' @ fv_flag fv)
                           (filter (\<lambda>fv. \<not> IsFlag ?cp (fv_flag fv)) ?fvs)) '','' @
                   '', ignored'') # out)" and
      k: "\<forall>n. IsFlag cp' n = IsFlag ?cp n" and
      w: "\<forall>s'. scanPieces (Fields s') 0 [] = Inr (filter (\<lambda>fv. IsFlag ?cp (fv_flag fv)) ?fvs) \<longrightarrow>
            ParseFromString ?pf ?cp s' = Inr (ok, cp', out)"
    by blast
  from r ev have e: "ok = True" "cp' = ?cp1" "out = []" by simp_all
  have clean: "ParseFromString ?pf ?cp ''-n 5'' = Inr (True, ?cp1, [])"
    using w [rule_format, OF scan'] e by simp
  have nox: "\<not> IsFlag ?cp1 ''x''"
    using k [rule_format, of "''x''"] e by (simp add: IsFlag_def NewCmdParser_def)
  from scan ev clean nox show ?thesis by blast
qed

section \<open>Flags that were never set\<close>

text \<open>
  C9. Take a flag registered by \<^verbatim>\<open>AddFlag\<close> with one of the five kinds, in any registry,
  and any later calls of \<^verbatim>\<open>AddFlag\<close>, \<^verbatim>\<open>SetVar\<close>, \<^verbatim>\<open>ParseFromString\<close>, \<^verbatim>\<open>ParseFromFile\<close>,
  \<^verbatim>\<open>ParseFromCmdLine\<close> and \<^verbatim>\<open>Parse\<close> that return, none of which registers the name again
  or gives the flag a value its kind decodes, so that \<^verbatim>\<open>Set\<close> never succeeds on it.
  Then the flag is not loaded and \<^verbatim>\<open>GetVar\<close> returns the zero value of its kind (0 for
  \<^verbatim>\<open>IntFlag\<close> and \<^verbatim>\<open>Int64Flag\<close>, 0.0 for \<^verbatim>\<open>FloatFlag\<close>, the empty string for \<^verbatim>\<open>StringFlag\<close>,
  false for \<^verbatim>\<open>BoolFlag\<close>); and one more \<^verbatim>\<open>ParseFromString\<close> on an input that gives the flag
  no value its kind decodes returns, accepted or rejected, with the same true of the
  registry it leaves.
\<close>

theorem unset_flag_zero:
  assumes "zeroValue kind = Some z"
    and "\<forall>c \<in> set later. givesNoValue pf kind name c"
    and "run pf (AddFlag cp kind name req) later = Inr cp'"
  shows "\<not> IsLoaded cp' name \<and> GetVar cp' name = Inr z \<and>
         (\<forall>s. noValueIn pf kind name s \<longrightarrow>
            (\<exists>ok cp'' out. ParseFromString pf cp' s = Inr (ok, cp'', out) \<and>
               \<not> IsLoaded cp'' name \<and> GetVar cp'' name = Inr z))"
proof -
  obtain a where a: "map_of (vars (AddFlag cp kind name req)) name = Some a" "ArgType a = kind"
      "\<not> Loaded a" "Get a = z"
    using AddFlag_slot [OF assms(1)] by blast
  have "\<forall>c \<in> set later. givesNoValue pf (ArgType a) name c"
    using assms(2) a(2) by simp
  then have slot: "map_of (vars cp') name = Some a"
    using run_no_value [OF _ a(1) assms(3)] by blast
  then have now: "\<not> IsLoaded cp' name \<and> GetVar cp' name = Inr z"
    using a by (simp add: IsLoaded_slot GetVar_def)
  have next_parse: "\<exists>ok cp'' out. ParseFromString pf cp' s = Inr (ok, cp'', out) \<and>
      \<not> IsLoaded cp'' name \<and> GetVar cp'' name = Inr z"
    if n: "noValueIn pf kind name s" for s
  proof -
    obtain ok cp'' out where r: "ParseFromString pf cp' s = Inr (ok, cp'', out)"
      using ParseFromString_returns by blast
    have "map_of (vars cp'') name = Some a"
      using ParseFromString_no_value [of pf a name s cp' ok cp'' out] n a(2) slot r by simp
    then have "\<not> IsLoaded cp'' name \<and> GetVar cp'' name = Inr z"
      using a by (simp add: IsLoaded_slot GetVar_def)
    with r show ?thesis by blast
  qed
  from now next_parse show ?thesis by blast
qed

theorem unset_flag_zero_witness:
  "zeroValue FloatFlag = Some (AnyFloat 0 :: float64 any) \<and>
   givesNoValue decodeFloat FloatFlag ''x'' (CallAddFlag BoolFlag ''v'' False) \<and>
   givesNoValue decodeFloat FloatFlag ''x'' (CallParseFromString ''-x abc -v'') \<and>
   givesNoValue decodeFloat FloatFlag ''x'' (CallSetVar ''v'' ''f'') \<and>
   run decodeFloat (AddFlag NewCmdParser FloatFlag ''x'' False)
     [CallAddFlag BoolFlag ''v'' False, CallParseFromString ''-x abc -v'', CallSetVar ''v'' ''f''] =
     Inr \<lparr>vars = [(''x'', FloatVar \<lparr>v_name = ''x'', v_value = 0, v_req = False,
                                     v_loaded = False\<rparr>),
                   (''v'', BoolVar \<lparr>v_name = ''v'', v_value = False, v_req = False,
                                    v_loaded = True\<rparr>)]\<rparr> \<and>
   \<not> IsLoaded
     \<lparr>vars = [(''x'', FloatVar \<lparr>v_name = ''x'', v_value = 0, v_req = False, v_loaded = False\<rparr>),
              (''v'', BoolVar \<lparr>v_name = ''v'', v_value = False, v_req = False, v_loaded = True\<rparr>)
              :: string \<times> float64 arg]\<rparr> ''x'' \<and>
   GetVar
     \<lparr>vars = [(''x'', FloatVar \<lparr>v_name = ''x'', v_value = 0, v_req = False, v_loaded = False\<rparr>),
              (''v'', BoolVar \<lparr>v_name = ''v'', v_value = False, v_req = False, v_loaded = True\<rparr>)
              :: string \<times> float64 arg]\<rparr> ''x'' = Inr (AnyFloat 0)"
proof -
  let ?later = "[CallAddFlag BoolFlag ''v'' False, CallParseFromString ''-x abc -v'',
                 CallSetVar ''v'' ''f'']"
  let ?after = "\<lparr>vars =
      [(''x'', FloatVar \<lparr>v_name = ''x'', v_value = 0, v_req = False, v_loaded = False\<rparr>),
       (''v'', BoolVar \<lparr>v_name = ''v'', v_value = False, v_req = False, v_loaded = True\<rparr>)
       :: string \<times> float64 arg]\<rparr>"
  have z: "zeroValue FloatFlag = Some (AnyFloat 0 :: float64 any)" by simp
  have abc: "ParseFloat ''abc'' = Inl ErrSyntax"
    by (simp add: float_eval)
  have g: "givesNoValue decodeFloat FloatFlag ''x'' (CallAddFlag BoolFlag ''v'' False)"
      "givesNoValue decodeFloat FloatFlag ''x'' (CallParseFromString ''-x abc -v'')"
      "givesNoValue decodeFloat FloatFlag ''x'' (CallSetVar ''v'' ''f'')"
    using abc
    by (simp_all add: noValueIn_def Fields_def asciiSpace_def scanPieces.simps HasPrefix_def
        Replace.simps valuesFor_def decodeFloat_def)
  have all: "\<forall>c \<in> set ?later. givesNoValue decodeFloat FloatFlag ''x'' c"
    using g by simp
  have r: "run decodeFloat (AddFlag NewCmdParser FloatFlag ''x'' False) ?later = Inr ?after"
    using abc
    by (simp add: ParseFromString_def Fields_def asciiSpace_def scanPieces.simps HasPrefix_def
        Replace.simps NewCmdParser_def createFloatVar_def createBoolVar_def SetVar_def
        decodeFloat_def Println_def)
  from unset_flag_zero [OF z all r] have
      "\<not> IsLoaded ?after ''x''" "GetVar ?after ''x'' = Inr (AnyFloat 0)"
    by blast+
  with z g r show ?thesis by blast
qed

section \<open>The registry: lookups\<close>

text \<open>
  C8. For a name that is not registered, \<^verbatim>\<open>SetVar\<close> and \<^verbatim>\<open>GetVar\<close> both panic:
  \<^verbatim>\<open>SetVar\<close> calls \<^verbatim>\<open>Set\<close> on the nil interface value the map lookup yields, \<^verbatim>\<open>GetVar\<close>
  calls \<^verbatim>\<open>panic\<close> with its message. For a registered name \<^verbatim>\<open>GetVar\<close> returns the value
  held in the slot stored under the name, tagged with the slot's kind: the \<^verbatim>\<open>v_value\<close> of
  an \<^verbatim>\<open>intVar\<close> as an int, of an \<^verbatim>\<open>int64Var\<close> as an int64, of a \<^verbatim>\<open>floatVar\<close> as a float, of a
  \<^verbatim>\<open>stringVar\<close> as a string and of a \<^verbatim>\<open>boolVar\<close> as a bool. It is the current value: after
  \<^verbatim>\<open>SetVar\<close> with a raw string the slot's kind decodes, \<^verbatim>\<open>GetVar\<close> returns the decoded
  value, and after \<^verbatim>\<open>SetVar\<close> with one it does not decode, what it returned before.
\<close>

theorem unregistered_lookup_fatal:
  "(\<not> IsFlag cp name \<longrightarrow>
      SetVar pf cp name val = Inl NilDereference \<and>
      GetVar cp name =
        Inl (Panic (''CmdParser.GetVar given unrecognized variable name '' @ name @ [CHR 0x0A]))) \<and>
   (IsFlag cp name \<longrightarrow>
      (\<exists>a. map_of (vars cp) name = Some a \<and> GetVar cp name = Inr (Get a))) \<and>
   (\<forall>vs. map_of (vars cp) name = Some (IntVar vs) \<longrightarrow> GetVar cp name = Inr (AnyInt (v_value vs))) \<and>
   (\<forall>vs. map_of (vars cp) name = Some (Int64Var vs) \<longrightarrow>
      GetVar cp name = Inr (AnyInt64 (v_value vs))) \<and>
   (\<forall>vs. map_of (vars cp) name = Some (FloatVar vs) \<longrightarrow>
      GetVar cp name = Inr (AnyFloat (v_value vs))) \<and>
   (\<forall>vs. map_of (vars cp) name = Some (StringVar vs) \<longrightarrow>
      GetVar cp name = Inr (AnyString (v_value vs))) \<and>
   (\<forall>vs. map_of (vars cp) name = Some (BoolVar vs) \<longrightarrow>
      GetVar cp name = Inr (AnyBool (v_value vs))) \<and>
   (\<forall>a d cp' out.
      map_of (vars cp) name = Some a \<and> decodeAs pf (ArgType a) val = Some d \<and>
      SetVar pf cp name val = Inr (cp', out) \<longrightarrow>
      GetVar cp' name = Inr d) \<and>
   (\<forall>a cp' out.
      map_of (vars cp) name = Some a \<and> decodeAs pf (ArgType a) val = None \<and>
      SetVar pf cp name val = Inr (cp', out) \<longrightarrow>
      GetVar cp' name = GetVar cp name)"
proof -
  have missing_name: "\<not> IsFlag cp name \<longrightarrow>
      SetVar pf cp name val = Inl NilDereference \<and>
      GetVar cp name =
        Inl (Panic (''CmdParser.GetVar given unrecognized variable name '' @ name @ [CHR 0x0A]))"
    by (auto simp: IsFlag_def SetVar_def GetVar_def split: option.splits)
  have present: "IsFlag cp name \<longrightarrow>
      (\<exists>a. map_of (vars cp) name = Some a \<and> GetVar cp name = Inr (Get a))"
    by (auto simp: IsFlag_def GetVar_def split: option.splits)
  have kinds:
    "\<forall>vs. map_of (vars cp) name = Some (IntVar vs) \<longrightarrow> GetVar cp name = Inr (AnyInt (v_value vs))"
    "\<forall>vs. map_of (vars cp) name = Some (Int64Var vs) \<longrightarrow>
       GetVar cp name = Inr (AnyInt64 (v_value vs))"
    "\<forall>vs. map_of (vars cp) name = Some (FloatVar vs) \<longrightarrow>
       GetVar cp name = Inr (AnyFloat (v_value vs))"
    "\<forall>vs. map_of (vars cp) name = Some (StringVar vs) \<longrightarrow>
       GetVar cp name = Inr (AnyString (v_value vs))"
    "\<forall>vs. map_of (vars cp) name = Some (BoolVar vs) \<longrightarrow>
       GetVar cp name = Inr (AnyBool (v_value vs))"
    by (simp_all add: GetVar_def)
  have decoded: "\<forall>a d cp' out.
      map_of (vars cp) name = Some a \<and> decodeAs pf (ArgType a) val = Some d \<and>
      SetVar pf cp name val = Inr (cp', out) \<longrightarrow>
      GetVar cp' name = Inr d"
  proof (intro allI impI)
    fix a d cp' out
    assume h: "map_of (vars cp) name = Some a \<and> decodeAs pf (ArgType a) val = Some d \<and>
      SetVar pf cp name val = Inr (cp', out)"
    then obtain b where "map_of (vars cp') name = Some b" "Get b = d"
      using SetVar_decodable [of pf cp name val cp' out a d] by blast
    then show "GetVar cp' name = Inr d" by (simp add: GetVar_def)
  qed
  have kept: "\<forall>a cp' out.
      map_of (vars cp) name = Some a \<and> decodeAs pf (ArgType a) val = None \<and>
      SetVar pf cp name val = Inr (cp', out) \<longrightarrow>
      GetVar cp' name = GetVar cp name"
  proof (intro allI impI)
    fix a cp' out
    assume h: "map_of (vars cp) name = Some a \<and> decodeAs pf (ArgType a) val = None \<and>
      SetVar pf cp name val = Inr (cp', out)"
    then have "map_of (vars cp') name = Some a"
      using SetVar_undecodable [of pf cp name val cp' out a] by blast
    with h show "GetVar cp' name = GetVar cp name" by (simp add: GetVar_def)
  qed
  from missing_name present kinds decoded kept show ?thesis by blast
qed

theorem unregistered_lookup_fatal_witness:
  "\<not> IsFlag
      \<lparr>vars = [(''s'', StringVar \<lparr>v_name = ''s'', v_value = ''hello'', v_req = False,
                                v_loaded = True\<rparr>),
               (''n'', IntVar \<lparr>v_name = ''n'', v_value = 7, v_req = True, v_loaded = True\<rparr>)
               :: string \<times> float64 arg]\<rparr> ''x'' \<and>
   SetVar decodeFloat
      \<lparr>vars = [(''s'', StringVar \<lparr>v_name = ''s'', v_value = ''hello'', v_req = False,
                                v_loaded = True\<rparr>),
               (''n'', IntVar \<lparr>v_name = ''n'', v_value = 7, v_req = True, v_loaded = True\<rparr>)]\<rparr>
      ''x'' ''1'' = Inl NilDereference \<and>
   GetVar
      \<lparr>vars = [(''s'', StringVar \<lparr>v_name = ''s'', v_value = ''hello'', v_req = False,
                                v_loaded = True\<rparr>),
               (''n'', IntVar \<lparr>v_name = ''n'', v_value = 7, v_req = True, v_loaded = True\<rparr>)
               :: string \<times> float64 arg]\<rparr> ''x'' =
     Inl (Panic (''CmdParser.GetVar given unrecognized variable name x'' @ [CHR 0x0A])) \<and>
   GetVar
      \<lparr>vars = [(''s'', StringVar \<lparr>v_name = ''s'', v_value = ''hello'', v_req = False,
                                v_loaded = True\<rparr>),
               (''n'', IntVar \<lparr>v_name = ''n'', v_value = 7, v_req = True, v_loaded = True\<rparr>)
               :: string \<times> float64 arg]\<rparr> ''s'' = Inr (AnyString ''hello'') \<and>
   GetVar
      \<lparr>vars = [(''s'', StringVar \<lparr>v_name = ''s'', v_value = ''hello'', v_req = False,
                                v_loaded = True\<rparr>),
               (''n'', IntVar \<lparr>v_name = ''n'', v_value = 7, v_req = True, v_loaded = True\<rparr>)
               :: string \<times> float64 arg]\<rparr> ''n'' = Inr (AnyInt 7) \<and>
   SetVar decodeFloat
      \<lparr>vars = [(''s'', StringVar \<lparr>v_name = ''s'', v_value = ''hello'', v_req = False,
                                v_loaded = True\<rparr>),
               (''n'', IntVar \<lparr>v_name = ''n'', v_value = 7, v_req = True, v_loaded = True\<rparr>)]\<rparr>
      ''n'' ''42'' =
     Inr (\<lparr>vars = [(''s'', StringVar \<lparr>v_name = ''s'', v_value = ''hello'', v_req = False,
                                     v_loaded = True\<rparr>),
                    (''n'', IntVar \<lparr>v_name = ''n'', v_value = 42, v_req = True,
                                    v_loaded = True\<rparr>)]\<rparr>, []) \<and>
   GetVar
      \<lparr>vars = [(''s'', StringVar \<lparr>v_name = ''s'', v_value = ''hello'', v_req = False,
                                v_loaded = True\<rparr>),
               (''n'', IntVar \<lparr>v_name = ''n'', v_value = 42, v_req = True, v_loaded = True\<rparr>)
               :: string \<times> float64 arg]\<rparr> ''n'' = Inr (AnyInt 42)"
proof -
  let ?s = "\<lparr>v_name = ''s'', v_value = ''hello'', v_req = False, v_loaded = True\<rparr>"
  let ?n = "\<lparr>v_name = ''n'', v_value = 7 :: 64 word, v_req = True, v_loaded = True\<rparr>"
  let ?m = "\<lparr>v_name = ''n'', v_value = 42 :: 64 word, v_req = True, v_loaded = True\<rparr>"
  let ?cp = "\<lparr>vars = [(''s'', StringVar ?s), (''n'', IntVar ?n) :: string \<times> float64 arg]\<rparr>"
  let ?after = "\<lparr>vars = [(''s'', StringVar ?s), (''n'', IntVar ?m) :: string \<times> float64 arg]\<rparr>"
  have no: "\<not> IsFlag ?cp ''x''" by (simp add: IsFlag_def)
  have ss: "map_of (vars ?cp) ''s'' = Some (StringVar ?s)" by simp
  have sn: "map_of (vars ?cp) ''n'' = Some (IntVar ?n)" by simp
  have dec: "decodeAs decodeFloat (ArgType (IntVar ?n :: float64 arg)) ''42'' = Some (AnyInt 42)"
    by (simp add: ParseInt_def ParseUint_def isDigit_def)
  have set: "SetVar decodeFloat ?cp ''n'' ''42'' = Inr (?after, [])"
    by (simp add: SetVar_def ParseInt_def ParseUint_def isDigit_def)
  note x = unregistered_lookup_fatal [of ?cp "''x''" decodeFloat "''1''"]
  note s = unregistered_lookup_fatal [of ?cp "''s''" decodeFloat "''1''"]
  note n = unregistered_lookup_fatal [of ?cp "''n''" decodeFloat "''42''"]
  have a: "SetVar decodeFloat ?cp ''x'' ''1'' = Inl NilDereference"
      "GetVar ?cp ''x'' =
         Inl (Panic (''CmdParser.GetVar given unrecognized variable name x'' @ [CHR 0x0A]))"
    using x no by simp_all
  have b: "GetVar ?cp ''s'' = Inr (AnyString ''hello'')"
    using s ss by simp
  have c: "GetVar ?cp ''n'' = Inr (AnyInt 7)"
    using n sn by simp
  have d: "GetVar ?after ''n'' = Inr (AnyInt 42)"
    using n sn dec set by blast
  from no a b c set d show ?thesis by blast
qed

section \<open>Comments in a flag file\<close>

text \<open>
  C4, as the code has it by design. Take a line whose first \<^verbatim>\<open>#\<close> has before it \<open>k\<close> tab
  bytes and then \<open>body\<close>, where \<open>body\<close> holds no tab (and, as in any line the scanner yields,
  no newline) and, when it is not empty, some byte that is not a space. When \<open>body\<close> is
  empty, so that only tabs stand before the \<^verbatim>\<open>#\<close>, the line is blank and adds nothing to
  the aggregate string. Otherwise the line is cut down to \<open>body\<close>, the bytes from position
  \<open>k\<close> up to the \<^verbatim>\<open>#\<close> (for \<open>k = 0\<close>: everything before the \<^verbatim>\<open>#\<close>), and a space and
  \<open>body\<close> are appended to the aggregate string.
\<close>

theorem comment_stripped:
  assumes "CHR 0x09 \<notin> set body" and "CHR ''#'' \<notin> set body" and "CHR 0x0A \<notin> set body"
    and "body \<noteq> [] \<longrightarrow> (\<exists>c \<in> set body. c \<noteq> CHR '' '')"
  shows "stripComment (replicate k (CHR 0x09) @ body @ CHR ''#'' # rest) 0 0 = body \<and>
         collectLines [replicate k (CHR 0x09) @ body @ CHR ''#'' # rest] agg =
           (if body = [] then agg else agg @ '' '' @ body)"
proof -
  let ?l = "replicate k (CHR 0x09) @ body @ CHR ''#'' # rest"
  have nh: "CHR ''#'' \<notin> set (replicate k (CHR 0x09) @ body)"
    using assms(2) by auto
  have tabs: "length (filter (\<lambda>c. c = CHR 0x09) (replicate k (CHR 0x09) @ body)) = k"
    using assms(1) by (auto simp: filter_empty_conv)
  have "stripComment ([] @ (replicate k (CHR 0x09) @ body) @ CHR ''#'' # rest) 0 (length ([] :: string)) =
        (if k = k + length body then []
         else take (length body) (drop k ([] @ (replicate k (CHR 0x09) @ body) @ CHR ''#'' # rest)))"
    unfolding stripComment_first_hash [OF nh, of "[]" rest 0] tabs by simp
  then have s: "stripComment ?l 0 0 = body" by simp
  have ne: "?l \<noteq> []" by simp
  have r: "Replace body [CHR 0x0A] '''' 1 = body"
    using assms(3) by (rule Replace_absent)
  have "collectLines [?l] agg = (if body = [] then agg else agg @ '' '' @ body)"
    using ne r by (simp add: s)
  with s show ?thesis by blast
qed

theorem comment_stripped_witness:
  "stripComment ([CHR 0x09] @ ''-n 5 # c'') 0 0 = ''-n 5 '' \<and>
   collectLines [[CHR 0x09] @ ''-n 5 # c''] '''' = '' -n 5 '' \<and>
   stripComment ([CHR 0x09, CHR 0x09] @ ''# no flags here'') 0 0 = '''' \<and>
   collectLines [[CHR 0x09, CHR 0x09] @ ''# no flags here''] '' -s hello'' = '' -s hello''"
proof -
  have a: "CHR 0x09 \<notin> set ''-n 5 ''" "CHR ''#'' \<notin> set ''-n 5 ''" "CHR 0x0A \<notin> set ''-n 5 ''"
      "''-n 5 '' \<noteq> [] \<longrightarrow> (\<exists>c \<in> set ''-n 5 ''. c \<noteq> CHR '' '')"
    by simp_all
  have b: "CHR 0x09 \<notin> set ''''" "CHR ''#'' \<notin> set ''''" "CHR 0x0A \<notin> set ''''"
      "'''' \<noteq> [] \<longrightarrow> (\<exists>c \<in> set ''''. c \<noteq> CHR '' '')"
    by simp_all
  show ?thesis
    using comment_stripped [OF a, of 1 "'' c''" "''''"]
      comment_stripped [OF b, of 2 "'' no flags here''" "'' -s hello''"]
    by (simp add: numeral_2_eq_2 del: collectLines.simps)
qed

text \<open>
  C4 as stated fails on three lines. In \<^verbatim>\<open><TAB>-n 5 # c\<close> the \<^verbatim>\<open>#\<close> is at position 6 and
  the claim keeps positions 0 to 5; the loop slices from \<^verbatim>\<open>whitespace\<close> and drops the
  leading tab. In \<^verbatim>\<open>-n<TAB>5 # c\<close> the \<^verbatim>\<open>#\<close> is at position 5 and the
  claim keeps positions 0 to 4; the loop has counted the tab at position 2 and keeps
  positions 1 to 4, so the \<^verbatim>\<open>-\<close> is lost and a file with this line is rejected. In
  \<^verbatim>\<open>  # c\<close> only spaces stand before the \<^verbatim>\<open>#\<close> and the claim has the line add nothing;
  the loop counts no space (\<^verbatim>\<open>string(b) == ""\<close> holds for no byte) and the two spaces
  are appended to the aggregate string.
\<close>

theorem comment_stripped_counterexample:
  "stripComment ([CHR 0x09] @ ''-n 5 # c'') 0 0 = ''-n 5 '' \<and>
   take 6 ([CHR 0x09] @ ''-n 5 # c'') = [CHR 0x09] @ ''-n 5 '' \<and>
   stripComment (''-n'' @ [CHR 0x09] @ ''5 # c'') 0 0 = ''n'' @ [CHR 0x09] @ ''5 '' \<and>
   take 5 (''-n'' @ [CHR 0x09] @ ''5 # c'') = ''-n'' @ [CHR 0x09] @ ''5 '' \<and>
   ParseFromFile (\<lambda>s. None)
     (\<lambda>name. Some (''-n'' @ [CHR 0x09] @ ''5 # c'' @ [CHR 0x0A]))
     (AddFlag (NewCmdParser :: real CmdParser) IntFlag ''n'' True) ''flags.txt'' =
     Inr (False, AddFlag (NewCmdParser :: real CmdParser) IntFlag ''n'' True,
          [''formatting problem in command line from n 5'' @ [CHR 0x0A]]) \<and>
   stripComment ''  # c'' 0 0 = ''  '' \<and>
   collectLines [''  # c''] '''' = ''   ''"
  by (simp add: stripComment.simps string_of_byte_def Replace.simps HasPrefix_def
      ParseFromFile_def dropCR_def MaxScanTokenSize_def ParseFromString_def Fields_def asciiSpace_def
      scanPieces.simps)

text \<open>
  The file of the specification's example: its aggregate string has the tokens of
  \<^verbatim>\<open>-n 5 -s hello\<close>.
\<close>

lemma file_example:
  "Fields (collectLines
     (scanLinesFrom (''-n 5 # comment'' @ [CHR 0x0A, CHR 0x0A] @ ''-s hello'' @ [CHR 0x0A]) []) '''') =
   Fields ''-n 5 -s hello''"
  by (simp add: stripComment.simps string_of_byte_def Replace.simps HasPrefix_def dropCR_def MaxScanTokenSize_def
      Fields_def asciiSpace_def)

section \<open>The entry point\<close>

text \<open>
  C10. When \<^verbatim>\<open>os.Args\<close> is the program name followed by the single argument \<^verbatim>\<open>-is\<close>,
  \<^verbatim>\<open>Parse\<close> reads \<^verbatim>\<open>os.Args[2]\<close> with no check of the length and panics with an index
  out of range: it neither returns nor reaches the panic that reports a parse failure.
\<close>

theorem Parse_is_without_filename:
  "Parse pf fs cp [prog, ''-is''] = Inl IndexOutOfRange"
  by (simp add: Parse_def)

theorem Parse_is_without_filename_witness:
  "Parse (\<lambda>s. None) (\<lambda>name. None)
     (AddFlag (NewCmdParser :: real CmdParser) IntFlag ''n'' True) [''prog'', ''-is''] =
     Inl IndexOutOfRange \<and>
   Parse (\<lambda>s. None) (\<lambda>name. None)
     (AddFlag (NewCmdParser :: real CmdParser) IntFlag ''n'' True) [''prog'', ''-is''] \<noteq>
     Inl (Panic ''Command line parsing error'')"
  using Parse_is_without_filename [of "\<lambda>s. None" "\<lambda>name. None"
      "AddFlag (NewCmdParser :: real CmdParser) IntFlag ''n'' True" "''prog''"]
  by simp

end
